theory Spec2Isabelle
  imports Complex_Main
begin

section \<open>JavaScript values read by the scorer\<close>

text \<open>
  The patients come out of \<^verbatim>\<open>res.json()\<close>, so a field of a patient is any JSON scalar, or
  \<^verbatim>\<open>undefined\<close> when the field is missing. A JavaScript number is an IEEE-754 double: a
  finite double is modelled by the real number it denotes (both zeros are \<open>Fin 0\<close>), next to
  the three special values. The scorer only compares numbers, and a comparison of doubles
  is exact, so no rounding takes place in the code modelled here.
\<close>

datatype jsnum = NaN | NegInf | Fin real | PosInf

datatype jsval = JUndefined | JNull | JBool bool | JNum jsnum | JStr string

datatype js_error =
    NetworkError          \<comment> \<open>\<^verbatim>\<open>fetch\<close> rejects\<close>
  | UnexpectedError nat   \<comment> \<open>\<^verbatim>\<open>new Error(`Unexpected Error ${res.status}`)\<close>\<close>
  | SyntaxError           \<comment> \<open>\<^verbatim>\<open>res.json()\<close> rejects\<close>
  | TypeError             \<comment> \<open>a property read on \<^verbatim>\<open>null\<close>/\<^verbatim>\<open>undefined\<close>, a call of a non-function\<close>

text \<open>\<^verbatim>\<open>ToBoolean\<close>: what \<^verbatim>\<open>!v\<close>, \<^verbatim>\<open>v && ...\<close> and \<^verbatim>\<open>if (v)\<close> read.\<close>

fun ToBoolean :: "jsval \<Rightarrow> bool" where
  "ToBoolean JUndefined = False"
| "ToBoolean JNull = False"
| "ToBoolean (JBool b) = b"
| "ToBoolean (JNum NaN) = False"
| "ToBoolean (JNum (Fin x)) = (x \<noteq> 0)"
| "ToBoolean (JNum NegInf) = True"
| "ToBoolean (JNum PosInf) = True"
| "ToBoolean (JStr s) = (s \<noteq> [])"

text \<open>
  \<^verbatim>\<open>ToNumber\<close>. The conversion of a string (\<^verbatim>\<open>StringToNumber\<close> of the language, which rounds
  a decimal literal to a double) belongs to the JavaScript runtime and is taken as the
  parameter \<open>s2n\<close>; every statement below holds for each such function.
\<close>

fun ToNumber :: "(string \<Rightarrow> jsnum) \<Rightarrow> jsval \<Rightarrow> jsnum" where
  "ToNumber s2n JUndefined = NaN"
| "ToNumber s2n JNull = Fin 0"
| "ToNumber s2n (JBool b) = (if b then Fin 1 else Fin 0)"
| "ToNumber s2n (JNum n) = n"
| "ToNumber s2n (JStr s) = s2n s"

text \<open>The global \<^verbatim>\<open>isNaN(v)\<close>.\<close>

definition isNaN :: "(string \<Rightarrow> jsnum) \<Rightarrow> jsval \<Rightarrow> bool" where
  "isNaN s2n v = (ToNumber s2n v = NaN)"

text \<open>\<^verbatim>\<open>v == null\<close>: true for \<^verbatim>\<open>null\<close> and \<^verbatim>\<open>undefined\<close> only.\<close>

fun eq_null :: "jsval \<Rightarrow> bool" where
  "eq_null JUndefined = True"
| "eq_null JNull = True"
| "eq_null (JBool b) = False"
| "eq_null (JNum n) = False"
| "eq_null (JStr s) = False"

text \<open>
  The comparison of two numbers (\<^verbatim>\<open>IsLessThan\<close> of the language): undefined, here \<open>None\<close>,
  as soon as one side is \<^verbatim>\<open>NaN\<close>. \<^verbatim>\<open>a < b\<close> holds when it is true, \<^verbatim>\<open>a <= b\<close> when the
  comparison of \<open>b\<close> with \<open>a\<close> is false, \<^verbatim>\<open>a >= b\<close> when the one of \<open>a\<close> with \<open>b\<close> is false.
\<close>

fun IsLessThan :: "jsnum \<Rightarrow> jsnum \<Rightarrow> bool option" where
  "IsLessThan NaN b = None"
| "IsLessThan NegInf NaN = None"
| "IsLessThan NegInf NegInf = Some False"
| "IsLessThan NegInf (Fin y) = Some True"
| "IsLessThan NegInf PosInf = Some True"
| "IsLessThan (Fin x) NaN = None"
| "IsLessThan (Fin x) NegInf = Some False"
| "IsLessThan (Fin x) (Fin y) = Some (x < y)"
| "IsLessThan (Fin x) PosInf = Some True"
| "IsLessThan PosInf NaN = None"
| "IsLessThan PosInf NegInf = Some False"
| "IsLessThan PosInf (Fin y) = Some False"
| "IsLessThan PosInf PosInf = Some False"

definition js_lt :: "jsnum \<Rightarrow> jsnum \<Rightarrow> bool" where
  "js_lt a b = (IsLessThan a b = Some True)"

definition js_le :: "jsnum \<Rightarrow> jsnum \<Rightarrow> bool" where
  "js_le a b = (IsLessThan b a = Some False)"

definition js_ge :: "jsnum \<Rightarrow> jsnum \<Rightarrow> bool" where
  "js_ge a b = (IsLessThan a b = Some False)"

text \<open>
  The number literals of the source that are not binary fractions denote the nearest
  double: \<^verbatim>\<open>100.9\<close> is $3550103143763149 / 2^{45}$ (a little above the decimal) and \<^verbatim>\<open>99.6\<close>
  is $3504363460047667 / 2^{45}$ (a little below). \<^verbatim>\<open>99.5\<close>, \<^verbatim>\<open>40\<close> and \<^verbatim>\<open>65\<close> are exact. A
  temperature that the server writes as \<^verbatim>\<open>100.9\<close> is read by \<^verbatim>\<open>res.json()\<close> as the same
  double as the literal.
\<close>

definition double_100_9 :: real where
  "double_100_9 = 3550103143763149 / 2 ^ 45"

definition double_99_6 :: real where
  "double_99_6 = 3504363460047667 / 2 ^ 45"

definition double_101_2 :: real where
  "double_101_2 = 7121316910779597 / 2 ^ 46"

section \<open>The scorer\<close>

subsection \<open>Blood pressure\<close>

text \<open>\<^verbatim>\<open>\d\<close> of a regular expression without the \<^verbatim>\<open>u\<close> flag: the ten ASCII digits.\<close>

definition is_digit :: "char \<Rightarrow> bool" where
  "is_digit c = (48 \<le> (of_char c :: nat) \<and> (of_char c :: nat) \<le> 57)"

definition digit_value :: "char \<Rightarrow> nat" where
  "digit_value c = (of_char c :: nat) - 48"

text \<open>
  \<^verbatim>\<open>/(\d+)\/(\d+)/\<close> tried at the start of the text. \<^verbatim>\<open>\d+\<close> is greedy and what follows it
  is not a digit, so backtracking into a run of digits never helps: the first group is the
  whole run of digits at the start, the second the whole run after the slash.
\<close>

definition bp_regex_at :: "string \<Rightarrow> (string \<times> string) option" where
  "bp_regex_at s =
     (let g1 = takeWhile is_digit s in
      if g1 = [] then None
      else (case dropWhile is_digit s of
              [] \<Rightarrow> None
            | c # r \<Rightarrow>
                if c = CHR ''/'' then
                  (let g2 = takeWhile is_digit r in
                   if g2 = [] then None else Some (g1, g2))
                else None))"

text \<open>\<^verbatim>\<open>bp.match(/(\d+)\/(\d+)/)\<close>: the match at the leftmost position that has one.\<close>

fun bp_regex_match :: "string \<Rightarrow> (string \<times> string) option" where
  "bp_regex_match [] = None"
| "bp_regex_match (c # cs) =
     (case bp_regex_at (c # cs) of
        Some m \<Rightarrow> Some m
      | None \<Rightarrow> bp_regex_match cs)"

text \<open>
  \<^verbatim>\<open>parseInt(text)\<close> on the texts that reach it, the groups of the match: they hold digits
  only, so there is no white space, sign or \<^verbatim>\<open>0x\<close> prefix to read. The result is \<open>None\<close>
  for \<^verbatim>\<open>NaN\<close> (no digit at the start) and the number written otherwise. \<^verbatim>\<open>parseInt\<close>
  rounds a long run of digits to a double (to \<^verbatim>\<open>Infinity\<close> for the longest); the rounding
  is monotone and exact up to $2^{53}$, so the comparisons of \<^verbatim>\<open>parseBP\<close> with 80 to 140
  give the same on the exact natural number, which the model keeps.
\<close>

definition decimal_value :: "string \<Rightarrow> nat" where
  "decimal_value ds = foldl (\<lambda>n c. 10 * n + digit_value c) 0 ds"

definition parseInt :: "string \<Rightarrow> nat option" where
  "parseInt s =
     (case takeWhile is_digit s of
        [] \<Rightarrow> None
      | d # ds \<Rightarrow> Some (decimal_value (d # ds)))"

text \<open>The four tests of \<^verbatim>\<open>parseBP\<close> on the two numbers, in the order of the source, and its last line.\<close>

definition bp_bands :: "nat \<Rightarrow> nat \<Rightarrow> nat" where
  "bp_bands systolic diastolic =
     (if systolic < 120 \<and> diastolic < 80 then 1
      else if systolic \<ge> 120 \<and> systolic \<le> 129 \<and> diastolic < 80 then 2
      else if (systolic \<ge> 130 \<and> systolic \<le> 139) \<or> (diastolic \<ge> 80 \<and> diastolic \<le> 89) then 3
      else if systolic \<ge> 140 \<or> diastolic \<ge> 90 then 4
      else 0)"

text \<open>
  \<^verbatim>\<open>parseBP(bp)\<close>. A value that is not falsy and not a string has no \<^verbatim>\<open>match\<close> method:
  the call \<^verbatim>\<open>bp.match(...)\<close> throws a \<^verbatim>\<open>TypeError\<close>.
\<close>

definition parseBP :: "jsval \<Rightarrow> js_error + nat" where
  "parseBP bp =
     (if \<not> ToBoolean bp then Inr 0
      else (case bp of
              JStr s \<Rightarrow>
                (case bp_regex_match s of
                   None \<Rightarrow> Inr 0
                 | Some (g1, g2) \<Rightarrow>
                     (case (parseInt g1, parseInt g2) of
                        (Some systolic, Some diastolic) \<Rightarrow> Inr (bp_bands systolic diastolic)
                      | _ \<Rightarrow> Inr 0))
            | _ \<Rightarrow> Inl TypeError))"

subsection \<open>Temperature and age\<close>

definition parseTemp :: "(string \<Rightarrow> jsnum) \<Rightarrow> jsval \<Rightarrow> nat" where
  "parseTemp s2n temp =
     (if eq_null temp \<or> isNaN s2n temp then 0
      else if js_le (ToNumber s2n temp) (Fin 99.5) then 0
      else if js_le (ToNumber s2n temp) (Fin double_100_9) then 1
      else 2)"

definition parseAge :: "(string \<Rightarrow> jsnum) \<Rightarrow> jsval \<Rightarrow> nat" where
  "parseAge s2n age =
     (if eq_null age \<or> isNaN s2n age then 0
      else if js_lt (ToNumber s2n age) (Fin 40) then 1
      else if js_le (ToNumber s2n age) (Fin 65) then 1
      else 2)"

subsection \<open>The combined score\<close>

record patient =
  patient_id :: jsval
  blood_pressure :: jsval
  temperature :: jsval
  age :: jsval

record risk =
  total :: nat
  bpScore :: nat
  tempScore :: nat
  ageScore :: nat
  dataIssue :: bool

text \<open>
  \<^verbatim>\<open>calculateRisk(patient)\<close>. An entry of the patient list is \<open>None\<close> when it is \<^verbatim>\<open>null\<close> or
  \<^verbatim>\<open>undefined\<close> (the entries \<^verbatim>\<open>!patient\<close> holds for).
\<close>

definition calculateRisk :: "(string \<Rightarrow> jsnum) \<Rightarrow> patient option \<Rightarrow> js_error + risk" where
  "calculateRisk s2n patient =
     (case patient of
        None \<Rightarrow> Inr \<lparr>total = 0, bpScore = 0, tempScore = 0, ageScore = 0, dataIssue = True\<rparr>
      | Some p \<Rightarrow>
          (case parseBP (blood_pressure p) of
             Inl e \<Rightarrow> Inl e
           | Inr bp \<Rightarrow>
               (let tmp = parseTemp s2n (temperature p);
                    ag = parseAge s2n (age p);
                    tot = bp + tmp + ag;
                    issue = (0 \<in> set [bp, tmp, ag])
                in Inr \<lparr>total = tot, bpScore = bp, tempScore = tmp, ageScore = ag,
                         dataIssue = issue\<rparr>)))"

section \<open>The classifier\<close>

record alert_lists =
  high_risk_patients :: "jsval list"
  fever_patients :: "jsval list"
  data_quality_issues :: "jsval list"

text \<open>
  The function handed to \<^verbatim>\<open>patients.forEach\<close>, on the three lists it pushes to. An error
  thrown by \<^verbatim>\<open>calculateRisk\<close> leaves the function.
\<close>

definition classify_patient ::
  "(string \<Rightarrow> jsnum) \<Rightarrow> patient option \<Rightarrow> alert_lists \<Rightarrow> js_error + alert_lists" where
  "classify_patient s2n entry als =
     (case entry of
        None \<Rightarrow> Inr als
      | Some p \<Rightarrow>
          (case calculateRisk s2n (Some p) of
             Inl e \<Rightarrow> Inl e
           | Inr r \<Rightarrow>
               (let l1 = (if total r \<ge> 4
                          then als\<lparr>high_risk_patients := high_risk_patients als @ [patient_id p]\<rparr>
                          else als);
                    l2 = (if ToBoolean (temperature p) \<and>
                             js_ge (ToNumber s2n (temperature p)) (Fin double_99_6)
                          then l1\<lparr>fever_patients := fever_patients l1 @ [patient_id p]\<rparr>
                          else l1);
                    l3 = (if dataIssue r
                          then l2\<lparr>data_quality_issues := data_quality_issues l2 @ [patient_id p]\<rparr>
                          else l2)
                in Inr l3)))"

text \<open>\<^verbatim>\<open>Array.prototype.forEach\<close>: the elements in order; an error thrown by the callback ends it.\<close>

fun forEach :: "('a \<Rightarrow> 's \<Rightarrow> js_error + 's) \<Rightarrow> 'a list \<Rightarrow> 's \<Rightarrow> js_error + 's" where
  "forEach f [] acc = Inr acc"
| "forEach f (x # xs) acc =
     (case f x acc of
        Inl e \<Rightarrow> Inl e
      | Inr acc' \<Rightarrow> forEach f xs acc')"

definition buildAlertLists ::
  "(string \<Rightarrow> jsnum) \<Rightarrow> patient option list \<Rightarrow> js_error + alert_lists" where
  "buildAlertLists s2n patients =
     forEach (classify_patient s2n) patients
       \<lparr>high_risk_patients = [], fever_patients = [], data_quality_issues = []\<rparr>"

section \<open>The fetcher\<close>

text \<open>
  The server is a list of outcomes, one for each call of \<^verbatim>\<open>fetch\<close> in the order of the calls.
  Of the body of a response the model keeps what \<^verbatim>\<open>fetchPatients\<close> reads:
  \<^item> \<open>NotJson\<close>: \<^verbatim>\<open>res.json()\<close> rejects;
  \<^item> \<open>JsonNull\<close>: the body is \<^verbatim>\<open>null\<close>, the read of \<^verbatim>\<open>json.data\<close> throws;
  \<^item> \<open>JsonNoPagination d\<close>: \<^verbatim>\<open>patients.concat(json.data)\<close> appends \<open>d\<close> and the read of
    \<^verbatim>\<open>json.pagination.totalPages\<close> throws, \<^verbatim>\<open>json.pagination\<close> being absent;
  \<^item> \<open>JsonPage d n\<close>: \<^verbatim>\<open>concat\<close> appends \<open>d\<close>, and \<open>n\<close> is the number that the test
    \<^verbatim>\<open>page <= totalPages\<close> reads from \<^verbatim>\<open>json.pagination.totalPages\<close> (\<open>NaN\<close> when it is absent).
\<close>

datatype json_body =
    NotJson
  | JsonNull
  | JsonNoPagination "patient option list"
  | JsonPage "patient option list" jsnum

record response =
  status :: nat
  body :: json_body

datatype fetch_outcome = Rejected | Resolved response

text \<open>What the run does to the outside, in order: a request for a page, a sleep of so many ms.\<close>

datatype event = Request nat | Sleep nat

text \<open>The variables of \<^verbatim>\<open>fetchPatients\<close>, and the events so far.\<close>

record fetch_state =
  patients :: "patient option list"
  page :: nat
  totalPages :: jsnum
  attempts :: nat
  success :: bool
  effects :: "event list"

text \<open>How a block ends: at its end, by \<^verbatim>\<open>continue\<close>, or by a \<^verbatim>\<open>throw\<close>; with the state it leaves.\<close>

datatype 's completion = Normal 's | Continue 's | Throw js_error 's

fun state_of :: "'s completion \<Rightarrow> 's" where
  "state_of (Normal s) = s"
| "state_of (Continue s) = s"
| "state_of (Throw e s) = s"

definition sleep :: "nat \<Rightarrow> fetch_state \<Rightarrow> fetch_state" where
  "sleep ms st = st\<lparr>effects := effects st @ [Sleep ms]\<rparr>"

text \<open>\<^verbatim>\<open>res.ok\<close>: the status is in the range 200 to 299.\<close>

definition ok :: "response \<Rightarrow> bool" where
  "ok res = (200 \<le> status res \<and> status res \<le> 299)"

text \<open>The \<^verbatim>\<open>try\<close> block of the retry loop, lines 28 to 63, on the outcome of its \<^verbatim>\<open>fetch\<close>.\<close>

definition try_block :: "fetch_state \<Rightarrow> fetch_outcome \<Rightarrow> fetch_state completion" where
  "try_block st0 outcome =
     (let st = st0\<lparr>effects := effects st0 @ [Request (page st0)]\<rparr> in
      case outcome of
        Rejected \<Rightarrow> Throw NetworkError st
      | Resolved res \<Rightarrow>
          if status res = 429 then
            (let st1 = st\<lparr>attempts := attempts st + 1\<rparr>;
                 wait = 3000 * attempts st1
             in Continue (sleep wait st1))
          else if status res \<in> set [500, 502, 503] then
            (let st1 = st\<lparr>attempts := attempts st + 1\<rparr>;
                 wait = 3000 * attempts st1
             in Continue (sleep wait st1))
          else if \<not> ok res then Throw (UnexpectedError (status res)) st
          else
            (case body res of
               NotJson \<Rightarrow> Throw SyntaxError st
             | JsonNull \<Rightarrow> Throw TypeError st
             | JsonNoPagination d \<Rightarrow> Throw TypeError (st\<lparr>patients := patients st @ d\<rparr>)
             | JsonPage d n \<Rightarrow>
                 Normal (st\<lparr>patients := patients st @ d, totalPages := n, success := True\<rparr>)))"

text \<open>The \<^verbatim>\<open>catch (err)\<close> block, lines 63 to 69.\<close>

definition catch_block :: "js_error \<Rightarrow> fetch_state \<Rightarrow> fetch_state completion" where
  "catch_block err st =
     (let st1 = st\<lparr>attempts := attempts st + 1\<rparr>;
          wait = 3000 * attempts st1
      in Normal (sleep wait st1))"

text \<open>One turn of the retry loop: the \<^verbatim>\<open>try\<close> statement.\<close>

definition attempt :: "fetch_state \<Rightarrow> fetch_outcome \<Rightarrow> fetch_state completion" where
  "attempt st outcome =
     (case try_block st outcome of
        Throw err st' \<Rightarrow> catch_block err st'
      | Normal st' \<Rightarrow> Normal st'
      | Continue st' \<Rightarrow> Continue st')"

text \<open>
  \<^verbatim>\<open>while (!success && attempts < 10)\<close>. Each turn takes the next outcome; the result is \<open>None\<close>
  when the loop asks for an outcome and the list has none left. An error that a turn
  throws would leave the loop.
\<close>

fun retry_loop ::
  "fetch_state \<Rightarrow> fetch_outcome list \<Rightarrow> (fetch_state completion \<times> fetch_outcome list) option" where
  "retry_loop st [] =
     (if \<not> success st \<and> attempts st < 10 then None else Some (Normal st, []))"
| "retry_loop st (outcome # rest) =
     (if \<not> success st \<and> attempts st < 10 then
        (case attempt st outcome of
           Throw err st' \<Rightarrow> Some (Throw err st', rest)
         | Normal st' \<Rightarrow> retry_loop st' rest
         | Continue st' \<Rightarrow> retry_loop st' rest)
      else Some (Normal st, outcome # rest))"

text \<open>
  \<^verbatim>\<open>while (page <= totalPages)\<close>, lines 23 to 76. The number \<^verbatim>\<open>page\<close> is a natural number
  (it counts up from 1 and stays far below $2^{53}$ on any list of outcomes). Every turn
  of the loop makes a request, so the loop ends on every list of outcomes: with the state
  at the \<^verbatim>\<open>return\<close>, with an error thrown out of the retry loop, or with \<open>None\<close> when
  the outcomes run out first.
\<close>

function fetch_loop :: "fetch_state \<Rightarrow> fetch_outcome list \<Rightarrow> fetch_state completion option" where
  "fetch_loop st outcomes =
     (if js_le (Fin (real (page st))) (totalPages st) then
        (case retry_loop (st\<lparr>attempts := 0, success := False\<rparr>) outcomes of
           None \<Rightarrow> None
         | Some (c, rest) \<Rightarrow>
             (case c of
                Throw err st' \<Rightarrow> Some (Throw err st')
              | Normal st' \<Rightarrow> fetch_loop (sleep 3000 (st'\<lparr>page := page st' + 1\<rparr>)) rest
              | Continue st' \<Rightarrow> fetch_loop (sleep 3000 (st'\<lparr>page := page st' + 1\<rparr>)) rest))
      else Some (Normal st))"
  by pat_completeness auto
termination
proof -
  have shorter: "length rest \<le> length outcomes \<and>
      (\<not> success st \<and> attempts st < 10 \<longrightarrow> length rest < length outcomes)"
    if "retry_loop st outcomes = Some (c, rest)" for st outcomes c rest
    using that
  proof (induction outcomes arbitrary: st)
    case Nil
    then show ?case by (simp split: if_splits)
  next
    case (Cons outcome outcomes)
    show ?case
    proof (cases "\<not> success st \<and> attempts st < 10")
      case False
      with Cons.prems show ?thesis by auto
    next
      case True
      show ?thesis
      proof (cases "attempt st outcome")
        case (Normal st')
        with True Cons.prems have "retry_loop st' outcomes = Some (c, rest)" by simp
        from Cons.IH [OF this] show ?thesis by simp
      next
        case (Continue st')
        with True Cons.prems have "retry_loop st' outcomes = Some (c, rest)" by simp
        from Cons.IH [OF this] show ?thesis by simp
      next
        case (Throw err st')
        with True Cons.prems show ?thesis by simp
      qed
    qed
  qed
  show ?thesis
  proof (relation "measure (\<lambda>(st, outcomes). length outcomes)")
    show "wf (measure (\<lambda>(st, outcomes). length outcomes))" by simp
  next
    fix st :: fetch_state and outcomes x2 c rest st'
    assume "retry_loop (st\<lparr>attempts := 0, success := False\<rparr>) outcomes = Some x2"
      and "(c, rest) = x2"
    then have "retry_loop (st\<lparr>attempts := 0, success := False\<rparr>) outcomes = Some (c, rest)"
      by simp
    from shorter [OF this]
    show "((sleep 3000 (st'\<lparr>page := page st' + 1\<rparr>), rest), st, outcomes)
            \<in> measure (\<lambda>(st, outcomes). length outcomes)"
      by simp
  next
    fix st :: fetch_state and outcomes x2 c rest st'
    assume "retry_loop (st\<lparr>attempts := 0, success := False\<rparr>) outcomes = Some x2"
      and "(c, rest) = x2"
    then have "retry_loop (st\<lparr>attempts := 0, success := False\<rparr>) outcomes = Some (c, rest)"
      by simp
    from shorter [OF this]
    show "((sleep 3000 (st'\<lparr>page := page st' + 1\<rparr>), rest), st, outcomes)
            \<in> measure (\<lambda>(st, outcomes). length outcomes)"
      by simp
  qed
qed

text \<open>
  \<^verbatim>\<open>fetchPatients()\<close> on the outcomes of its requests: the patients it returns or the error
  it throws, and the events of the run.
\<close>

definition fetchPatients ::
  "fetch_outcome list \<Rightarrow> ((js_error + patient option list) \<times> event list) option" where
  "fetchPatients outcomes =
     (case fetch_loop \<lparr>patients = [], page = 1, totalPages = Fin 1, attempts = 0,
                        success = False, effects = []\<rparr> outcomes of
        None \<Rightarrow> None
      | Some (Throw err st) \<Rightarrow> Some (Inl err, effects st)
      | Some (Normal st) \<Rightarrow> Some (Inr (patients st), effects st)
      | Some (Continue st) \<Rightarrow> Some (Inr (patients st), effects st))"

subsection \<open>Notions for the properties of the retry loop\<close>

text \<open>
  An attempt fails when it does not set \<^verbatim>\<open>success\<close>: the request is rejected, the status
  is not in the range of \<^verbatim>\<open>res.ok\<close>, or the body is not a page.
\<close>

definition failed_attempt :: "fetch_outcome \<Rightarrow> bool" where
  "failed_attempt outcome =
     (case outcome of
        Rejected \<Rightarrow> True
      | Resolved res \<Rightarrow>
          \<not> ok res \<or> (case body res of JsonPage d n \<Rightarrow> False | _ \<Rightarrow> True))"

text \<open>
  The failures that the retry policy names: a rejected request, one of the four statuses,
  a body that \<^verbatim>\<open>res.json()\<close> cannot parse.
\<close>

definition retryable :: "fetch_outcome \<Rightarrow> bool" where
  "retryable outcome =
     (case outcome of
        Rejected \<Rightarrow> True
      | Resolved res \<Rightarrow> status res \<in> set [429, 500, 502, 503] \<or> (ok res \<and> body res = NotJson))"

text \<open>What a failed attempt leaves in \<^verbatim>\<open>patients\<close> all the same (it threw after line 57).\<close>

definition appended_by :: "fetch_outcome \<Rightarrow> patient option list" where
  "appended_by outcome =
     (case outcome of
        Rejected \<Rightarrow> []
      | Resolved res \<Rightarrow>
          if ok res then (case body res of JsonNoPagination d \<Rightarrow> d | _ \<Rightarrow> []) else [])"

text \<open>
  The events of \<open>k\<close> failed attempts on page \<open>pg\<close> after \<open>a\<close> earlier ones: each is a request
  of the page and a sleep of 3000 ms times the number of the attempt.
\<close>

definition retry_events :: "nat \<Rightarrow> nat \<Rightarrow> nat \<Rightarrow> event list" where
  "retry_events pg a k =
     concat (map (\<lambda>i. [Request pg, Sleep (3000 * i)]) [a + 1 ..< a + k + 1])"

text \<open>The state after the failed attempts \<open>fails\<close>.\<close>

definition after_failures :: "fetch_state \<Rightarrow> fetch_outcome list \<Rightarrow> fetch_state" where
  "after_failures st fails =
     st\<lparr>patients := patients st @ concat (map appended_by fails),
        attempts := attempts st + length fails,
        effects := effects st @ retry_events (page st) (attempts st) (length fails)\<rparr>"

declare fetch_loop.simps [simp del]

section \<open>Properties of the scorer\<close>

subsection \<open>The regular expression and \<^verbatim>\<open>parseInt\<close>\<close>

text \<open>
  What \<open>bp_regex_match\<close> returns is an occurrence of digits, a slash and digits in the
  text, a text with such an occurrence has a match, and the match starts at the first
  position of the text where the pattern matches.
\<close>

lemma not_digit_slash: "\<not> is_digit CHR ''/''"
  by (simp add: is_digit_def)

lemma parseInt_digits:
  assumes "g \<noteq> []" and "\<forall>c\<in>set g. is_digit c"
  shows "parseInt g = Some (decimal_value g)"
proof -
  from assms(2) have "takeWhile is_digit g = g"
    by simp
  with assms(1) show ?thesis
    by (cases g) (simp_all add: parseInt_def)
qed

lemma bp_regex_at_Some:
  assumes "bp_regex_at s = Some (g1, g2)"
  shows "\<exists>post. s = g1 @ CHR ''/'' # g2 @ post \<and> g1 \<noteq> [] \<and> g2 \<noteq> [] \<and>
           (\<forall>c\<in>set g1. is_digit c) \<and> (\<forall>c\<in>set g2. is_digit c)"
proof -
  from assms obtain r where g1: "g1 = takeWhile is_digit s" "g1 \<noteq> []" 
    and dr: "dropWhile is_digit s = CHR ''/'' # r"
    and g2: "g2 = takeWhile is_digit r" "g2 \<noteq> []"
    by (auto simp: bp_regex_at_def Let_def split: list.splits if_splits)
  have "s = takeWhile is_digit s @ dropWhile is_digit s" by simp
  also have "\<dots> = g1 @ CHR ''/'' # (takeWhile is_digit r @ dropWhile is_digit r)"
    using g1 dr by simp
  finally have "s = g1 @ CHR ''/'' # g2 @ dropWhile is_digit r"
    using g2 by simp
  moreover have "\<forall>c\<in>set g1. is_digit c" using g1 by (auto dest: set_takeWhileD)
  moreover have "\<forall>c\<in>set g2. is_digit c" using g2 by (auto dest: set_takeWhileD)
  ultimately show ?thesis using g1 g2 by blast
qed

lemma bp_regex_at_digits:
  assumes "d1 \<noteq> []" "d2 \<noteq> []" "\<forall>c\<in>set d1. is_digit c" "\<forall>c\<in>set d2. is_digit c"
  shows "bp_regex_at (d1 @ CHR ''/'' # d2 @ post) \<noteq> None"
proof -
  have t1: "takeWhile is_digit (d1 @ CHR ''/'' # d2 @ post) = d1"
    using assms(3) not_digit_slash by simp
  have t2: "dropWhile is_digit (d1 @ CHR ''/'' # d2 @ post) = CHR ''/'' # d2 @ post"
    using assms(3) not_digit_slash by simp
  obtain c cs where d2: "d2 = c # cs" using assms(2) by (cases d2) auto
  with assms(4) have "is_digit c" by simp
  then have "takeWhile is_digit (d2 @ post) \<noteq> []" using d2 by simp
  with t1 t2 assms(1) show ?thesis
    by (simp add: bp_regex_at_def Let_def)
qed

lemma bp_regex_match_Some:
  "bp_regex_match s = Some (g1, g2) \<Longrightarrow>
     \<exists>pre post. s = pre @ g1 @ CHR ''/'' # g2 @ post \<and> g1 \<noteq> [] \<and> g2 \<noteq> [] \<and>
           (\<forall>c\<in>set g1. is_digit c) \<and> (\<forall>c\<in>set g2. is_digit c)"
proof (induction s)
  case Nil
  then show ?case by simp
next
  case (Cons c cs)
  show ?case
  proof (cases "bp_regex_at (c # cs)")
    case None
    with Cons.prems have "bp_regex_match cs = Some (g1, g2)" by simp
    from Cons.IH [OF this] obtain pre post where
      "cs = pre @ g1 @ CHR ''/'' # g2 @ post" and rest: "g1 \<noteq> []" "g2 \<noteq> []"
      "\<forall>c\<in>set g1. is_digit c" "\<forall>c\<in>set g2. is_digit c" by blast
    then have "c # cs = (c # pre) @ g1 @ CHR ''/'' # g2 @ post" by simp
    with rest show ?thesis by blast
  next
    case (Some m)
    with Cons.prems have "bp_regex_at (c # cs) = Some (g1, g2)" by simp
    from bp_regex_at_Some [OF this] obtain post where
      "c # cs = [] @ g1 @ CHR ''/'' # g2 @ post" and rest: "g1 \<noteq> []" "g2 \<noteq> []"
      "\<forall>c\<in>set g1. is_digit c" "\<forall>c\<in>set g2. is_digit c" by auto
    then show ?thesis by blast
  qed
qed

lemma bp_regex_match_complete:
  assumes "d1 \<noteq> []" "d2 \<noteq> []" "\<forall>c\<in>set d1. is_digit c" "\<forall>c\<in>set d2. is_digit c"
  shows "bp_regex_match (pre @ d1 @ CHR ''/'' # d2 @ post) \<noteq> None"
proof (induction pre)
  case Nil
  obtain c cs where d1: "d1 = c # cs" using assms(1) by (cases d1) auto
  from bp_regex_at_digits [OF assms, of post] obtain m where
    "bp_regex_at (d1 @ CHR ''/'' # d2 @ post) = Some m" by auto
  with d1 show ?case by simp
next
  case (Cons a pre)
  then show ?case by (simp split: option.splits)
qed

lemma bp_regex_match_leftmost:
  "bp_regex_match s = Some m \<Longrightarrow>
     \<exists>pre rest. s = pre @ rest \<and> bp_regex_at rest = Some m \<and>
        (\<forall>k<length pre. bp_regex_at (drop k s) = None)"
proof (induction s)
  case Nil
  then show ?case by simp
next
  case (Cons c cs)
  show ?case
  proof (cases "bp_regex_at (c # cs)")
    case (Some m')
    with Cons.prems have "bp_regex_at (c # cs) = Some m" by simp
    then have "c # cs = [] @ (c # cs) \<and> bp_regex_at (c # cs) = Some m \<and>
        (\<forall>k<length ([] :: string). bp_regex_at (drop k (c # cs)) = None)"
      by simp
    then show ?thesis by blast
  next
    case None
    with Cons.prems have "bp_regex_match cs = Some m" by simp
    from Cons.IH [OF this] obtain pre rest where
      split: "cs = pre @ rest" and at: "bp_regex_at rest = Some m"
      and before: "\<forall>k<length pre. bp_regex_at (drop k cs) = None"
      by blast
    have "\<forall>k<length (c # pre). bp_regex_at (drop k (c # cs)) = None"
    proof (intro allI impI)
      fix k
      assume "k < length (c # pre)"
      then show "bp_regex_at (drop k (c # cs)) = None"
        using None before by (cases k) simp_all
    qed
    with split at have "c # cs = (c # pre) @ rest \<and> bp_regex_at rest = Some m \<and>
        (\<forall>k<length (c # pre). bp_regex_at (drop k (c # cs)) = None)"
      by simp
    then show ?thesis by blast
  qed
qed

lemma bp_bands_range: "bp_bands a b \<in> {1, 2, 3, 4}"
  by (simp add: bp_bands_def)

lemma parseBP_match:
  assumes "bp_regex_match s = Some (g1, g2)"
  shows "parseBP (JStr s) = Inr (bp_bands (decimal_value g1) (decimal_value g2))"
proof -
  from bp_regex_match_Some [OF assms] have g: "g1 \<noteq> []" "g2 \<noteq> []"
      "\<forall>c\<in>set g1. is_digit c" "\<forall>c\<in>set g2. is_digit c" by auto
  have "s \<noteq> []" using assms by (cases s) auto
  moreover have "parseInt g1 = Some (decimal_value g1)" "parseInt g2 = Some (decimal_value g2)"
    using g by (simp_all add: parseInt_digits)
  ultimately show ?thesis using assms by (simp add: parseBP_def)
qed

subsection \<open>Blood pressure\<close>

text \<open>
  C2. For a text in which the pattern digits/digits has a first match, read as (systolic,
  diastolic), \<^verbatim>\<open>parseBP\<close> returns the score of the first band that holds, in the order:
  systolic below 120 and diastolic below 80 gives 1; systolic from 120 to 129 and diastolic
  below 80 gives 2; systolic from 130 to 139 or diastolic from 80 to 89 gives 3; systolic
  from 140 or diastolic from 90 gives 4. So 118/76 scores 1, 125/78 scores 2, 135/85
  scores 3, 145/95 scores 4 and 121/80 scores 3. An empty or absent field and a text
  without a match score 0.
\<close>

theorem parseBP_first_matching_band:
  "(bp_regex_match s = Some (g1, g2) \<and> systolic = decimal_value g1 \<and> diastolic = decimal_value g2 \<longrightarrow>
      (systolic < 120 \<and> diastolic < 80 \<longrightarrow> parseBP (JStr s) = Inr 1) \<and>
      (\<not> (systolic < 120 \<and> diastolic < 80) \<and>
       120 \<le> systolic \<and> systolic \<le> 129 \<and> diastolic < 80 \<longrightarrow> parseBP (JStr s) = Inr 2) \<and>
      (\<not> (systolic < 120 \<and> diastolic < 80) \<and>
       \<not> (120 \<le> systolic \<and> systolic \<le> 129 \<and> diastolic < 80) \<and>
       ((130 \<le> systolic \<and> systolic \<le> 139) \<or> (80 \<le> diastolic \<and> diastolic \<le> 89)) \<longrightarrow>
         parseBP (JStr s) = Inr 3) \<and>
      (\<not> (systolic < 120 \<and> diastolic < 80) \<and>
       \<not> (120 \<le> systolic \<and> systolic \<le> 129 \<and> diastolic < 80) \<and>
       \<not> ((130 \<le> systolic \<and> systolic \<le> 139) \<or> (80 \<le> diastolic \<and> diastolic \<le> 89)) \<and>
       (140 \<le> systolic \<or> 90 \<le> diastolic) \<longrightarrow> parseBP (JStr s) = Inr 4)) \<and>
   (bp_regex_match s = None \<longrightarrow> parseBP (JStr s) = Inr 0) \<and>
   parseBP (JStr []) = Inr 0 \<and> parseBP JUndefined = Inr 0 \<and> parseBP JNull = Inr 0 \<and>
   parseBP (JStr ''118/76'') = Inr 1 \<and> parseBP (JStr ''125/78'') = Inr 2 \<and>
   parseBP (JStr ''135/85'') = Inr 3 \<and> parseBP (JStr ''145/95'') = Inr 4 \<and>
   parseBP (JStr ''121/80'') = Inr 3"
proof -
  have bands: "bp_regex_match s = Some (g1, g2) \<Longrightarrow>
      parseBP (JStr s) = Inr (bp_bands (decimal_value g1) (decimal_value g2))"
    by (rule parseBP_match)
  have none: "bp_regex_match s = None \<Longrightarrow> parseBP (JStr s) = Inr 0"
    by (simp add: parseBP_def)
  have absent: "parseBP (JStr []) = Inr 0" "parseBP JUndefined = Inr 0" "parseBP JNull = Inr 0"
    by (simp_all add: parseBP_def)
  have e1: "parseBP (JStr ''118/76'') = Inr 1" by code_simp
  have e2: "parseBP (JStr ''125/78'') = Inr 2" by code_simp
  have e3: "parseBP (JStr ''135/85'') = Inr 3" by code_simp
  have e4: "parseBP (JStr ''145/95'') = Inr 4" by code_simp
  have e5: "parseBP (JStr ''121/80'') = Inr 3" by code_simp
  show ?thesis
    using bands none absent e1 e2 e3 e4 e5 by (simp add: bp_bands_def)
qed

theorem parseBP_first_matching_band_witness:
  "bp_regex_match ''x 118/76'' = Some (''118'', ''76'') \<and> parseBP (JStr ''x 118/76'') = Inr 1 \<and>
   bp_regex_match ''125/78'' = Some (''125'', ''78'') \<and> parseBP (JStr ''125/78'') = Inr 2 \<and>
   bp_regex_match ''135/95'' = Some (''135'', ''95'') \<and> parseBP (JStr ''135/95'') = Inr 3 \<and>
   bp_regex_match ''145/95'' = Some (''145'', ''95'') \<and> parseBP (JStr ''145/95'') = Inr 4 \<and>
   bp_regex_match ''N/A'' = None \<and> parseBP (JStr ''N/A'') = Inr 0"
proof -
  have m1: "bp_regex_match ''x 118/76'' = Some (''118'', ''76'')" by code_simp
  have m2: "bp_regex_match ''125/78'' = Some (''125'', ''78'')" by code_simp
  have m3: "bp_regex_match ''135/95'' = Some (''135'', ''95'')" by code_simp
  have m4: "bp_regex_match ''145/95'' = Some (''145'', ''95'')" by code_simp
  have m5: "bp_regex_match ''N/A'' = None" by code_simp
  have v: "decimal_value ''118'' = 118" "decimal_value ''76'' = 76" "decimal_value ''125'' = 125"
    "decimal_value ''78'' = 78" "decimal_value ''135'' = 135" "decimal_value ''95'' = 95"
    "decimal_value ''145'' = 145"
    by (simp_all add: decimal_value_def digit_value_def)
  have "parseBP (JStr ''x 118/76'') = Inr 1"
    using parseBP_first_matching_band [of "''x 118/76''" "''118''" "''76''" 118 76] m1 v by simp
  moreover have "parseBP (JStr ''125/78'') = Inr 2"
    using parseBP_first_matching_band [of "''125/78''" "''125''" "''78''" 125 78] m2 v by simp
  moreover have "parseBP (JStr ''135/95'') = Inr 3"
    using parseBP_first_matching_band [of "''135/95''" "''135''" "''95''" 135 95] m3 v by simp
  moreover have "parseBP (JStr ''145/95'') = Inr 4"
    using parseBP_first_matching_band [of "''145/95''" "''145''" "''95''" 145 95] m4 v by simp
  moreover have "parseBP (JStr ''N/A'') = Inr 0"
    using parseBP_first_matching_band [of "''N/A''"] m5 by simp
  ultimately show ?thesis using m1 m2 m3 m4 m5 by simp
qed

subsection \<open>Temperature and age\<close>

text \<open>
  The three constants are doubles of the binade from 64 to 128 (a 53-bit numerator over
  $2^{46}$) within half a unit in the last place of the decimal they are written as.
\<close>

lemma double_literals:
  "double_100_9 = 7100206287526298 / 2 ^ 46 \<and> \<bar>double_100_9 - 100.9\<bar> < 1 / 2 ^ 47 \<and>
   double_99_6 = 7008726920095334 / 2 ^ 46 \<and> \<bar>double_99_6 - 99.6\<bar> < 1 / 2 ^ 47 \<and>
   \<bar>double_101_2 - 101.2\<bar> < 1 / 2 ^ 47 \<and>
   (2::nat) ^ 52 \<le> 7008726920095334 \<and> (7121316910779597::nat) < 2 ^ 53"
  by (simp add: double_100_9_def double_99_6_def double_101_2_def)

lemma double_order: "99.5 < double_99_6" "double_99_6 < double_100_9" "double_100_9 < 101"
  "double_100_9 < double_101_2"
  by (simp_all add: double_100_9_def double_99_6_def double_101_2_def)

text \<open>
  C7. A temperature that is a number scores 0 when it is at most 99.5, 1 when it is above
  99.5 and at most 100.9, and 2 when it is above 100.9 (the literal \<^verbatim>\<open>100.9\<close> being the
  double \<open>double_100_9\<close>); an absent value (\<^verbatim>\<open>null\<close>, \<^verbatim>\<open>undefined\<close>) and a value that is not
  a number (one that \<^verbatim>\<open>isNaN\<close> holds for: its conversion to a number gives \<^verbatim>\<open>NaN\<close>) score 0.
  So \<^verbatim>\<open>parseTemp(99.5)\<close> is 0, \<^verbatim>\<open>parseTemp(99.6)\<close> is 1, \<^verbatim>\<open>parseTemp(100.9)\<close> is 1 and
  \<^verbatim>\<open>parseTemp(101.0)\<close> is 2. The bands are stated for every value by the number it
  converts to, and for the two infinities.
\<close>

theorem parseTemp_bands:
  "(eq_null v \<or> ToNumber s2n v = NaN \<longrightarrow> parseTemp s2n v = 0) \<and>
   (ToNumber s2n v = Fin x \<longrightarrow>
      (x \<le> 99.5 \<longrightarrow> parseTemp s2n v = 0) \<and>
      (99.5 < x \<and> x \<le> double_100_9 \<longrightarrow> parseTemp s2n v = 1) \<and>
      (double_100_9 < x \<longrightarrow> parseTemp s2n v = 2)) \<and>
   (ToNumber s2n v = NegInf \<longrightarrow> parseTemp s2n v = 0) \<and>
   (ToNumber s2n v = PosInf \<longrightarrow> parseTemp s2n v = 2) \<and>
   parseTemp s2n (JNum (Fin 99.5)) = 0 \<and>
   parseTemp s2n (JNum (Fin double_99_6)) = 1 \<and>
   parseTemp s2n (JNum (Fin double_100_9)) = 1 \<and>
   parseTemp s2n (JNum (Fin 101.0)) = 2"
proof -
  have absent: "eq_null v \<or> ToNumber s2n v = NaN \<Longrightarrow> parseTemp s2n v = 0"
    by (auto simp: parseTemp_def isNaN_def)
  have fin: "parseTemp s2n v =
      (if x \<le> 99.5 then 0 else if x \<le> double_100_9 then 1 else 2)"
    if "ToNumber s2n v = Fin x"
    using that by (cases v) (auto simp: parseTemp_def isNaN_def js_le_def split: if_splits)
  have low: "x \<le> 99.5 \<Longrightarrow> x \<le> double_100_9"
    using double_order by simp
  have inf: "ToNumber s2n v = NegInf \<Longrightarrow> parseTemp s2n v = 0"
    "ToNumber s2n v = PosInf \<Longrightarrow> parseTemp s2n v = 2"
    by (cases v; auto simp: parseTemp_def isNaN_def js_le_def split: if_splits)+
  have ex: "parseTemp s2n (JNum (Fin 99.5)) = 0" "parseTemp s2n (JNum (Fin double_99_6)) = 1"
    "parseTemp s2n (JNum (Fin double_100_9)) = 1" "parseTemp s2n (JNum (Fin 101.0)) = 2"
    using double_order by (simp_all add: parseTemp_def isNaN_def js_le_def)
  show ?thesis using absent fin low inf ex by auto
qed

theorem parseTemp_bands_witness:
  "parseTemp (\<lambda>s. NaN) JUndefined = 0 \<and> parseTemp (\<lambda>s. NaN) (JStr ''TEMP_ERROR'') = 0 \<and>
   parseTemp (\<lambda>s. NaN) (JNum (Fin 98)) = 0 \<and> parseTemp (\<lambda>s. NaN) (JNum (Fin 100)) = 1 \<and>
   parseTemp (\<lambda>s. NaN) (JNum (Fin 102)) = 2 \<and> parseTemp (\<lambda>s. NaN) (JNum NegInf) = 0 \<and>
   parseTemp (\<lambda>s. NaN) (JNum PosInf) = 2"
proof -
  have "parseTemp (\<lambda>s. NaN) JUndefined = 0"
    using parseTemp_bands [of JUndefined "\<lambda>s. NaN"] by simp
  moreover have "parseTemp (\<lambda>s. NaN) (JStr ''TEMP_ERROR'') = 0"
    using parseTemp_bands [of "JStr ''TEMP_ERROR''" "\<lambda>s. NaN"] by simp
  moreover have "parseTemp (\<lambda>s. NaN) (JNum (Fin 98)) = 0"
    using parseTemp_bands [of "JNum (Fin 98)" "\<lambda>s. NaN" 98] by simp
  moreover have "parseTemp (\<lambda>s. NaN) (JNum (Fin 100)) = 1"
    using parseTemp_bands [of "JNum (Fin 100)" "\<lambda>s. NaN" 100]
    by (simp add: double_100_9_def)
  moreover have "parseTemp (\<lambda>s. NaN) (JNum (Fin 102)) = 2"
    using parseTemp_bands [of "JNum (Fin 102)" "\<lambda>s. NaN" 102]
    by (simp add: double_100_9_def)
  moreover have "parseTemp (\<lambda>s. NaN) (JNum NegInf) = 0"
    using parseTemp_bands [of "JNum NegInf" "\<lambda>s. NaN"] by simp
  moreover have "parseTemp (\<lambda>s. NaN) (JNum PosInf) = 2"
    using parseTemp_bands [of "JNum PosInf" "\<lambda>s. NaN"] by simp
  ultimately show ?thesis by simp
qed




text \<open>
  A boolean and a text that converts to a number are not \<^verbatim>\<open>NaN\<close> for \<^verbatim>\<open>isNaN\<close>: they are
  scored as the number they convert to.
\<close>

lemma coerced_values:
  "parseAge s2n (JBool b) = 1" "parseTemp s2n (JBool b) = 0"
  "s2n s = Fin x \<Longrightarrow> 65 < x \<Longrightarrow> parseAge s2n (JStr s) = 2"
  "s2n s = Fin x \<Longrightarrow> double_100_9 < x \<Longrightarrow> parseTemp s2n (JStr s) = 2"
  using double_order
  by (auto simp: parseAge_def parseTemp_def isNaN_def js_le_def js_lt_def)

subsection \<open>The combined score\<close>

lemma parseBP_returns:
  "(\<exists>n. parseBP bp = Inr n) \<longleftrightarrow> (\<not> ToBoolean bp \<or> (\<exists>s. bp = JStr s))"
  by (cases bp) (auto simp: parseBP_def split: option.splits prod.splits)

lemma calculateRisk_Some:
  "calculateRisk s2n (Some p) = Inr r \<longleftrightarrow>
     (\<exists>bp. parseBP (blood_pressure p) = Inr bp \<and>
        r = \<lparr>total = bp + parseTemp s2n (temperature p) + parseAge s2n (age p),
             bpScore = bp, tempScore = parseTemp s2n (temperature p),
             ageScore = parseAge s2n (age p),
             dataIssue = (bp = 0 \<or> parseTemp s2n (temperature p) = 0 \<or>
                          parseAge s2n (age p) = 0)\<rparr>)"
  by (auto simp: calculateRisk_def Let_def split: sum.splits)

text \<open>
  C3. The result of \<^verbatim>\<open>calculateRisk\<close> on a patient record has \<open>total\<close> the sum of the three
  sub-scores, which are those of the three fields, and \<open>dataIssue\<close> true exactly when one of
  the three sub-scores is 0. There is a result for every record whose blood pressure is a
  text or falsy (any other value makes \<^verbatim>\<open>bp.match\<close> throw). For a \<^verbatim>\<open>null\<close> or absent
  record the result is 0 for the three sub-scores and the total, with \<open>dataIssue\<close> true.
\<close>

theorem calculateRisk_total_dataIssue:
  "(calculateRisk s2n (Some p) = Inr r \<longrightarrow>
      total r = bpScore r + tempScore r + ageScore r \<and>
      (dataIssue r \<longleftrightarrow> (bpScore r = 0 \<or> tempScore r = 0 \<or> ageScore r = 0)) \<and>
      parseBP (blood_pressure p) = Inr (bpScore r) \<and>
      tempScore r = parseTemp s2n (temperature p) \<and>
      ageScore r = parseAge s2n (age p)) \<and>
   ((\<exists>r'. calculateRisk s2n (Some p) = Inr r') \<longleftrightarrow>
      (\<not> ToBoolean (blood_pressure p) \<or> (\<exists>s. blood_pressure p = JStr s))) \<and>
   calculateRisk s2n None =
     Inr \<lparr>total = 0, bpScore = 0, tempScore = 0, ageScore = 0, dataIssue = True\<rparr>"
proof -
  have res: "calculateRisk s2n (Some p) = Inr r \<Longrightarrow>
      total r = bpScore r + tempScore r + ageScore r \<and>
      (dataIssue r \<longleftrightarrow> (bpScore r = 0 \<or> tempScore r = 0 \<or> ageScore r = 0)) \<and>
      parseBP (blood_pressure p) = Inr (bpScore r) \<and>
      tempScore r = parseTemp s2n (temperature p) \<and>
      ageScore r = parseAge s2n (age p)"
    unfolding calculateRisk_Some by auto
  have "(\<exists>r'. calculateRisk s2n (Some p) = Inr r') \<longleftrightarrow> (\<exists>n. parseBP (blood_pressure p) = Inr n)"
    unfolding calculateRisk_Some by auto
  then have ret: "(\<exists>r'. calculateRisk s2n (Some p) = Inr r') \<longleftrightarrow>
      (\<not> ToBoolean (blood_pressure p) \<or> (\<exists>s. blood_pressure p = JStr s))"
    by (simp add: parseBP_returns)
  have none: "calculateRisk s2n None =
     Inr \<lparr>total = 0, bpScore = 0, tempScore = 0, ageScore = 0, dataIssue = True\<rparr>"
    by (simp add: calculateRisk_def)
  from res ret none show ?thesis by blast
qed

theorem calculateRisk_total_dataIssue_witness:
  "calculateRisk (\<lambda>s. NaN)
     (Some \<lparr>patient_id = JStr ''DEMO001'', blood_pressure = JStr ''118/76'',
            temperature = JNum (Fin 98), age = JNum (Fin 30)\<rparr>) =
     Inr \<lparr>total = 2, bpScore = 1, tempScore = 0, ageScore = 1, dataIssue = True\<rparr> \<and>
   total \<lparr>total = 2, bpScore = 1, tempScore = 0, ageScore = 1, dataIssue = True\<rparr> = 1 + 0 + 1"
proof -
  let ?p = "\<lparr>patient_id = JStr ''DEMO001'', blood_pressure = JStr ''118/76'',
            temperature = JNum (Fin 98), age = JNum (Fin 30)\<rparr>"
  let ?r = "\<lparr>total = 2, bpScore = 1, tempScore = 0, ageScore = 1, dataIssue = True\<rparr>"
  have bp: "parseBP (JStr ''118/76'') = Inr 1" by code_simp
  have run: "calculateRisk (\<lambda>s. NaN) (Some ?p) = Inr ?r"
    using bp by (simp add: calculateRisk_def parseTemp_def parseAge_def isNaN_def
        js_le_def js_lt_def)
  from calculateRisk_total_dataIssue [of "\<lambda>s. NaN" ?p ?r] run
  have "total ?r = bpScore ?r + tempScore ?r + ageScore ?r" by blast
  with run show ?thesis by simp
qed

text \<open>
  C10. The four bands cover every pair of natural numbers, so the last \<^verbatim>\<open>return 0\<close> of
  \<^verbatim>\<open>parseBP\<close> is never reached: for every text that contains digits, a slash and digits the
  score is 1, 2, 3 or 4. A record with such a blood pressure has a blood-pressure
  sub-score that is not 0, and its \<open>dataIssue\<close> is true exactly when the temperature or
  the age sub-score is 0.
\<close>

theorem parseBP_wellformed_never_zero:
  "bp_bands systolic diastolic \<in> {1, 2, 3, 4} \<and>
   (d1 \<noteq> [] \<and> d2 \<noteq> [] \<and> (\<forall>c\<in>set d1. is_digit c) \<and> (\<forall>c\<in>set d2. is_digit c) \<and>
    s = pre @ d1 @ CHR ''/'' # d2 @ post \<longrightarrow>
      (\<exists>n\<in>{1, 2, 3, 4}. parseBP (JStr s) = Inr n) \<and>
      (blood_pressure p = JStr s \<longrightarrow>
         (\<exists>r. calculateRisk s2n (Some p) = Inr r \<and> bpScore r \<in> {1, 2, 3, 4} \<and>
              (dataIssue r \<longleftrightarrow> (tempScore r = 0 \<or> ageScore r = 0)))))"
proof -
  have range: "bp_bands a b \<in> {1, 2, 3, 4}" for a b
    by (simp add: bp_bands_def)
  have main: "(\<exists>n\<in>{1, 2, 3, 4}. parseBP (JStr s) = Inr n) \<and>
      (blood_pressure p = JStr s \<longrightarrow>
         (\<exists>r. calculateRisk s2n (Some p) = Inr r \<and> bpScore r \<in> {1, 2, 3, 4} \<and>
              (dataIssue r \<longleftrightarrow> (tempScore r = 0 \<or> ageScore r = 0))))"
    if d: "d1 \<noteq> []" "d2 \<noteq> []" "\<forall>c\<in>set d1. is_digit c" "\<forall>c\<in>set d2. is_digit c"
      and s: "s = pre @ d1 @ CHR ''/'' # d2 @ post"
  proof -
    from bp_regex_match_complete [OF d, of pre post] s
    obtain g1 g2 where "bp_regex_match s = Some (g1, g2)" by auto
    from parseBP_match [OF this] obtain n where
      n: "parseBP (JStr s) = Inr n" "n \<in> {1, 2, 3, 4}"
      using range by blast
    then have "n \<noteq> 0" by auto
    with n show ?thesis
      by (auto simp: calculateRisk_def Let_def)
  qed
  from range main show ?thesis by blast
qed

theorem parseBP_wellformed_never_zero_witness:
  "parseBP (JStr ''BP: 121/80 mmHg'') = Inr 3 \<and>
   calculateRisk (\<lambda>s. NaN)
     (Some \<lparr>patient_id = JStr ''DEMO002'', blood_pressure = JStr ''BP: 121/80 mmHg'',
            temperature = JNum (Fin 100), age = JNum (Fin 70)\<rparr>) =
     Inr \<lparr>total = 6, bpScore = 3, tempScore = 1, ageScore = 2, dataIssue = False\<rparr>"
proof -
  let ?s = "''BP: 121/80 mmHg''"
  let ?p = "\<lparr>patient_id = JStr ''DEMO002'', blood_pressure = JStr ?s,
            temperature = JNum (Fin 100), age = JNum (Fin 70)\<rparr>"
  have dg: "''121'' \<noteq> [] \<and> ''80'' \<noteq> [] \<and> (\<forall>c\<in>set ''121''. is_digit c) \<and>
      (\<forall>c\<in>set ''80''. is_digit c) \<and> ?s = ''BP: '' @ ''121'' @ CHR ''/'' # ''80'' @ '' mmHg''"
    by (simp add: is_digit_def)
  have nonzero: "\<exists>n\<in>{1, 2, 3, 4}. parseBP (JStr ?s) = Inr n"
    by (rule parseBP_wellformed_never_zero
          [of 0 0 "''121''" "''80''" ?s "''BP: ''" "'' mmHg''" ?p "\<lambda>s. NaN",
           THEN conjunct2, THEN mp, OF dg, THEN conjunct1])
  have bp: "parseBP (JStr ?s) = Inr 3" by code_simp
  have "calculateRisk (\<lambda>s. NaN) (Some ?p) =
     Inr \<lparr>total = 6, bpScore = 3, tempScore = 1, ageScore = 2, dataIssue = False\<rparr>"
    using bp by (simp add: calculateRisk_def parseTemp_def parseAge_def isNaN_def
        js_le_def js_lt_def double_100_9_def)
  with bp nonzero show ?thesis by blast
qed

section \<open>Properties of the classifier\<close>

text \<open>
  One call of the callback appends the identifier to each list whose test holds, so the
  three lists of a run are the identifiers of the patients that pass each test, in the
  order of the input.
\<close>

lemma classify_patient_None: "classify_patient s2n None acc = Inr acc"
  by (simp add: classify_patient_def)

lemma classify_patient_Some:
  "classify_patient s2n (Some p) acc = Inr acc' \<longleftrightarrow>
     (\<exists>r. calculateRisk s2n (Some p) = Inr r \<and>
        acc' = \<lparr>high_risk_patients =
                  high_risk_patients acc @ (if 4 \<le> total r then [patient_id p] else []),
                fever_patients =
                  fever_patients acc @
                    (if ToBoolean (temperature p) \<and>
                        js_ge (ToNumber s2n (temperature p)) (Fin double_99_6)
                     then [patient_id p] else []),
                data_quality_issues =
                  data_quality_issues acc @ (if dataIssue r then [patient_id p] else [])\<rparr>)"
  by (cases "calculateRisk s2n (Some p)") (auto simp: classify_patient_def Let_def)

lemma forEach_classify:
  "forEach (classify_patient s2n) ps acc = Inr al \<Longrightarrow>
     high_risk_patients al =
       high_risk_patients acc @
         map patient_id
           (filter (\<lambda>p. \<exists>r. calculateRisk s2n (Some p) = Inr r \<and> 4 \<le> total r)
              (List.map_filter id ps)) \<and>
     fever_patients al =
       fever_patients acc @
         map patient_id
           (filter (\<lambda>p. ToBoolean (temperature p) \<and>
                         js_ge (ToNumber s2n (temperature p)) (Fin double_99_6))
              (List.map_filter id ps)) \<and>
     data_quality_issues al =
       data_quality_issues acc @
         map patient_id
           (filter (\<lambda>p. \<exists>r. calculateRisk s2n (Some p) = Inr r \<and> dataIssue r)
              (List.map_filter id ps))"
proof (induction ps arbitrary: acc)
  case Nil
  then show ?case by simp
next
  case (Cons entry ps)
  show ?case
  proof (cases entry)
    case None
    with Cons.prems have "forEach (classify_patient s2n) ps acc = Inr al"
      by (simp add: classify_patient_None)
    from Cons.IH [OF this] None show ?thesis by simp
  next
    case (Some p)
    from Cons.prems Some obtain acc' where
      step: "classify_patient s2n (Some p) acc = Inr acc'"
      and rest: "forEach (classify_patient s2n) ps acc' = Inr al"
      by (auto split: sum.splits)
    from step obtain r where r: "calculateRisk s2n (Some p) = Inr r"
      and acc': "high_risk_patients acc' =
          high_risk_patients acc @ (if 4 \<le> total r then [patient_id p] else [])"
        "fever_patients acc' =
          fever_patients acc @
            (if ToBoolean (temperature p) \<and>
                js_ge (ToNumber s2n (temperature p)) (Fin double_99_6)
             then [patient_id p] else [])"
        "data_quality_issues acc' =
          data_quality_issues acc @ (if dataIssue r then [patient_id p] else [])"
      unfolding classify_patient_Some by auto
    from Cons.IH [OF rest] r acc' Some show ?thesis
      by simp
  qed
qed

lemma forEach_returns:
  "(\<exists>al. forEach (classify_patient s2n) ps acc = Inr al) \<longleftrightarrow>
     (\<forall>p. Some p \<in> set ps \<longrightarrow>
        \<not> ToBoolean (blood_pressure p) \<or> (\<exists>s. blood_pressure p = JStr s))"
proof (induction ps arbitrary: acc)
  case Nil
  then show ?case by simp
next
  case (Cons entry ps)
  show ?case
  proof (cases entry)
    case None
    with Cons.IH [of acc] show ?thesis by (simp add: classify_patient_None)
  next
    case (Some p)
    show ?thesis
    proof (cases "classify_patient s2n (Some p) acc")
      case (Inl e)
      then have "\<not> (\<exists>r. calculateRisk s2n (Some p) = Inr r)"
        by (auto simp: classify_patient_def Let_def split: sum.splits)
      then have "\<not> (\<exists>n. parseBP (blood_pressure p) = Inr n)"
        unfolding calculateRisk_Some by simp
      then have "\<not> (\<not> ToBoolean (blood_pressure p) \<or> (\<exists>s. blood_pressure p = JStr s))"
        using parseBP_returns [of "blood_pressure p"] by blast
      with Inl Some show ?thesis by auto
    next
      case (Inr acc')
      then have "\<exists>r. calculateRisk s2n (Some p) = Inr r"
        unfolding classify_patient_Some by blast
      then have "\<exists>n. parseBP (blood_pressure p) = Inr n"
        unfolding calculateRisk_Some by blast
      then have "\<not> ToBoolean (blood_pressure p) \<or> (\<exists>s. blood_pressure p = JStr s)"
        using parseBP_returns [of "blood_pressure p"] by blast
      with Inr Some Cons.IH [of acc'] show ?thesis by auto
    qed
  qed
qed

lemma forEach_append:
  "forEach f (xs @ ys) acc =
     (case forEach f xs acc of Inl e \<Rightarrow> Inl e | Inr acc' \<Rightarrow> forEach f ys acc')"
  by (induction xs arbitrary: acc) (auto split: sum.splits)

lemma forEach_skip_absent:
  "forEach (classify_patient s2n) ps acc =
   forEach (classify_patient s2n) (map Some (List.map_filter id ps)) acc"
proof (induction ps arbitrary: acc)
  case Nil
  then show ?case by simp
next
  case (Cons entry ps)
  then show ?case
    by (cases entry) (simp_all add: classify_patient_None split: sum.splits)
qed

lemma set_map_filter_id: "p \<in> set (List.map_filter id ps) \<longleftrightarrow> Some p \<in> set ps"
  by (induction ps) (auto split: option.splits)

lemma forEach_classify_from:
  assumes "forEach (classify_patient s2n) ys
      \<lparr>high_risk_patients = [], fever_patients = [], data_quality_issues = []\<rparr> = Inr b"
  shows "forEach (classify_patient s2n) ys a =
      Inr \<lparr>high_risk_patients = high_risk_patients a @ high_risk_patients b,
           fever_patients = fever_patients a @ fever_patients b,
           data_quality_issues = data_quality_issues a @ data_quality_issues b\<rparr>"
proof -
  from assms forEach_returns [of s2n ys] obtain c where
    c: "forEach (classify_patient s2n) ys a = Inr c"
    by blast
  from forEach_classify [OF assms] forEach_classify [OF c]
  have "high_risk_patients c = high_risk_patients a @ high_risk_patients b"
    "fever_patients c = fever_patients a @ fever_patients b"
    "data_quality_issues c = data_quality_issues a @ data_quality_issues b"
    by simp_all
  then have "c = \<lparr>high_risk_patients = high_risk_patients a @ high_risk_patients b,
           fever_patients = fever_patients a @ fever_patients b,
           data_quality_issues = data_quality_issues a @ data_quality_issues b\<rparr>"
    by (cases c) simp
  with c show ?thesis by simp
qed

text \<open>
  The fever test reads the temperature for truth first. With the conversion of the empty
  text that JavaScript has (0), a falsy temperature converts to 0 or to \<^verbatim>\<open>NaN\<close>, so the
  test is the comparison with 99.6 alone.
\<close>

lemma fever_test_present:
  assumes "s2n [] = Fin 0"
  shows "(ToBoolean t \<and> js_ge (ToNumber s2n t) (Fin double_99_6)) \<longleftrightarrow>
         js_ge (ToNumber s2n t) (Fin double_99_6)"
proof (cases "ToBoolean t")
  case True
  then show ?thesis by simp
next
  case False
  then have "ToNumber s2n t = NaN \<or> ToNumber s2n t = Fin 0"
    using assms by (cases t rule: ToBoolean.cases) auto
  then have "\<not> js_ge (ToNumber s2n t) (Fin double_99_6)"
    by (auto simp: js_ge_def double_99_6_def)
  with False show ?thesis by simp
qed

text \<open>
  C4. For a patient that is not \<^verbatim>\<open>null\<close>, the classifier appends its \<open>patient_id\<close> to
  \<open>high_risk_patients\<close> exactly when the combined total is at least 4, to \<open>fever_patients\<close>
  exactly when the raw temperature is present (truthy) and at least 99.6, whatever the
  temperature score is, and to \<open>data_quality_issues\<close> exactly when \<open>dataIssue\<close> is true; so
  an identifier is in a list of the result exactly when a patient of the input that has it
  passes the test of the list. The patient with blood pressure 145/95, temperature 101.2
  and age 70 scores 4, 2 and 2, total 8, and is in \<open>high_risk_patients\<close> and
  \<open>fever_patients\<close> and not in \<open>data_quality_issues\<close>. The temperatures 99.5625 and 99.6
  have the same temperature score, and only the second passes the fever test.
\<close>

theorem buildAlertLists_membership:
  "(classify_patient s2n (Some p) acc = Inr acc' \<longrightarrow>
      (\<exists>r. calculateRisk s2n (Some p) = Inr r \<and>
         high_risk_patients acc' =
           high_risk_patients acc @ (if 4 \<le> total r then [patient_id p] else []) \<and>
         fever_patients acc' =
           fever_patients acc @
             (if ToBoolean (temperature p) \<and>
                 js_ge (ToNumber s2n (temperature p)) (Fin double_99_6)
              then [patient_id p] else []) \<and>
         data_quality_issues acc' =
           data_quality_issues acc @ (if dataIssue r then [patient_id p] else []))) \<and>
   (buildAlertLists s2n ps = Inr al \<longrightarrow>
      (\<forall>x. x \<in> set (high_risk_patients al) \<longleftrightarrow>
           (\<exists>q r. Some q \<in> set ps \<and> patient_id q = x \<and>
                  calculateRisk s2n (Some q) = Inr r \<and> 4 \<le> total r)) \<and>
      (\<forall>x. x \<in> set (fever_patients al) \<longleftrightarrow>
           (\<exists>q. Some q \<in> set ps \<and> patient_id q = x \<and> ToBoolean (temperature q) \<and>
                js_ge (ToNumber s2n (temperature q)) (Fin double_99_6))) \<and>
      (\<forall>x. x \<in> set (data_quality_issues al) \<longleftrightarrow>
           (\<exists>q r. Some q \<in> set ps \<and> patient_id q = x \<and>
                  calculateRisk s2n (Some q) = Inr r \<and> dataIssue r))) \<and>
   calculateRisk s2n
     (Some \<lparr>patient_id = JStr ''P1'', blood_pressure = JStr ''145/95'',
            temperature = JNum (Fin double_101_2), age = JNum (Fin 70)\<rparr>) =
     Inr \<lparr>total = 8, bpScore = 4, tempScore = 2, ageScore = 2, dataIssue = False\<rparr> \<and>
   buildAlertLists s2n
     [Some \<lparr>patient_id = JStr ''P1'', blood_pressure = JStr ''145/95'',
            temperature = JNum (Fin double_101_2), age = JNum (Fin 70)\<rparr>] =
     Inr \<lparr>high_risk_patients = [JStr ''P1''], fever_patients = [JStr ''P1''],
          data_quality_issues = []\<rparr> \<and>
   parseTemp s2n (JNum (Fin 99.5625)) = parseTemp s2n (JNum (Fin double_99_6)) \<and>
   \<not> js_ge (Fin 99.5625) (Fin double_99_6) \<and> js_ge (Fin double_99_6) (Fin double_99_6)"
proof -
  have step: "classify_patient s2n (Some p) acc = Inr acc' \<Longrightarrow>
      (\<exists>r. calculateRisk s2n (Some p) = Inr r \<and>
         high_risk_patients acc' =
           high_risk_patients acc @ (if 4 \<le> total r then [patient_id p] else []) \<and>
         fever_patients acc' =
           fever_patients acc @
             (if ToBoolean (temperature p) \<and>
                 js_ge (ToNumber s2n (temperature p)) (Fin double_99_6)
              then [patient_id p] else []) \<and>
         data_quality_issues acc' =
           data_quality_issues acc @ (if dataIssue r then [patient_id p] else []))"
    unfolding classify_patient_Some by auto
  have run: "(\<forall>x. x \<in> set (high_risk_patients al) \<longleftrightarrow>
           (\<exists>q r. Some q \<in> set ps \<and> patient_id q = x \<and>
                  calculateRisk s2n (Some q) = Inr r \<and> 4 \<le> total r)) \<and>
      (\<forall>x. x \<in> set (fever_patients al) \<longleftrightarrow>
           (\<exists>q. Some q \<in> set ps \<and> patient_id q = x \<and> ToBoolean (temperature q) \<and>
                js_ge (ToNumber s2n (temperature q)) (Fin double_99_6))) \<and>
      (\<forall>x. x \<in> set (data_quality_issues al) \<longleftrightarrow>
           (\<exists>q r. Some q \<in> set ps \<and> patient_id q = x \<and>
                  calculateRisk s2n (Some q) = Inr r \<and> dataIssue r))"
    if "buildAlertLists s2n ps = Inr al"
  proof -
    from that have "forEach (classify_patient s2n) ps
        \<lparr>high_risk_patients = [], fever_patients = [], data_quality_issues = []\<rparr> = Inr al"
      by (simp add: buildAlertLists_def)
    from forEach_classify [OF this]
    have lists: "high_risk_patients al =
         map patient_id
           (filter (\<lambda>p. \<exists>r. calculateRisk s2n (Some p) = Inr r \<and> 4 \<le> total r)
              (List.map_filter id ps))"
      "fever_patients al =
         map patient_id
           (filter (\<lambda>p. ToBoolean (temperature p) \<and>
                         js_ge (ToNumber s2n (temperature p)) (Fin double_99_6))
              (List.map_filter id ps))"
      "data_quality_issues al =
         map patient_id
           (filter (\<lambda>p. \<exists>r. calculateRisk s2n (Some p) = Inr r \<and> dataIssue r)
              (List.map_filter id ps))"
      by simp_all
    have h: "\<forall>x. x \<in> set (high_risk_patients al) \<longleftrightarrow>
           (\<exists>q r. Some q \<in> set ps \<and> patient_id q = x \<and>
                  calculateRisk s2n (Some q) = Inr r \<and> 4 \<le> total r)"
      unfolding lists by (auto simp: set_map_filter_id)
    have f: "\<forall>x. x \<in> set (fever_patients al) \<longleftrightarrow>
           (\<exists>q. Some q \<in> set ps \<and> patient_id q = x \<and> ToBoolean (temperature q) \<and>
                js_ge (ToNumber s2n (temperature q)) (Fin double_99_6))"
      unfolding lists by (auto simp: set_map_filter_id)
    have d: "\<forall>x. x \<in> set (data_quality_issues al) \<longleftrightarrow>
           (\<exists>q r. Some q \<in> set ps \<and> patient_id q = x \<and>
                  calculateRisk s2n (Some q) = Inr r \<and> dataIssue r)"
      unfolding lists by (auto simp: set_map_filter_id)
    from h f d show ?thesis by blast
  qed
  have bp: "parseBP (JStr ''145/95'') = Inr 4" by code_simp
  have risk: "calculateRisk s2n
     (Some \<lparr>patient_id = JStr ''P1'', blood_pressure = JStr ''145/95'',
            temperature = JNum (Fin double_101_2), age = JNum (Fin 70)\<rparr>) =
     Inr \<lparr>total = 8, bpScore = 4, tempScore = 2, ageScore = 2, dataIssue = False\<rparr>"
    using bp double_order
    by (simp add: calculateRisk_def parseTemp_def parseAge_def isNaN_def js_le_def js_lt_def)
  have fev: "js_ge (Fin double_101_2) (Fin double_99_6)" "double_101_2 \<noteq> 0"
    by (simp_all add: js_ge_def double_101_2_def double_99_6_def)
  have lists: "buildAlertLists s2n
     [Some \<lparr>patient_id = JStr ''P1'', blood_pressure = JStr ''145/95'',
            temperature = JNum (Fin double_101_2), age = JNum (Fin 70)\<rparr>] =
     Inr \<lparr>high_risk_patients = [JStr ''P1''], fever_patients = [JStr ''P1''],
          data_quality_issues = []\<rparr>"
    using risk fev by (simp add: buildAlertLists_def classify_patient_def)
  have indep: "parseTemp s2n (JNum (Fin 99.5625)) = parseTemp s2n (JNum (Fin double_99_6))"
    "\<not> js_ge (Fin 99.5625) (Fin double_99_6)" "js_ge (Fin double_99_6) (Fin double_99_6)"
    by (simp_all add: parseTemp_def isNaN_def js_le_def js_ge_def double_99_6_def
        double_100_9_def)
  from step run risk lists indep show ?thesis by blast
qed

theorem buildAlertLists_membership_witness:
  "classify_patient (\<lambda>s. NaN)
     (Some \<lparr>patient_id = JStr ''P2'', blood_pressure = JNull,
            temperature = JNum (Fin 98), age = JNum (Fin 30)\<rparr>)
     \<lparr>high_risk_patients = [JStr ''P1''], fever_patients = [JStr ''P1''],
      data_quality_issues = []\<rparr> =
     Inr \<lparr>high_risk_patients = [JStr ''P1''], fever_patients = [JStr ''P1''],
          data_quality_issues = [JStr ''P2'']\<rparr> \<and>
   buildAlertLists (\<lambda>s. NaN)
     [Some \<lparr>patient_id = JStr ''P1'', blood_pressure = JStr ''145/95'',
            temperature = JNum (Fin double_101_2), age = JNum (Fin 70)\<rparr>,
      None,
      Some \<lparr>patient_id = JStr ''P2'', blood_pressure = JNull,
            temperature = JNum (Fin 98), age = JNum (Fin 30)\<rparr>] =
     Inr \<lparr>high_risk_patients = [JStr ''P1''], fever_patients = [JStr ''P1''],
          data_quality_issues = [JStr ''P2'']\<rparr> \<and>
   JStr ''P1'' \<in> set (high_risk_patients
     \<lparr>high_risk_patients = [JStr ''P1''], fever_patients = [JStr ''P1''],
      data_quality_issues = [JStr ''P2'']\<rparr>)"
proof -
  let ?P1 = "\<lparr>patient_id = JStr ''P1'', blood_pressure = JStr ''145/95'',
            temperature = JNum (Fin double_101_2), age = JNum (Fin 70)\<rparr>"
  let ?P2 = "\<lparr>patient_id = JStr ''P2'', blood_pressure = JNull,
            temperature = JNum (Fin 98), age = JNum (Fin 30)\<rparr>"
  let ?mid = "\<lparr>high_risk_patients = [JStr ''P1''], fever_patients = [JStr ''P1''],
      data_quality_issues = []\<rparr>"
  let ?al = "\<lparr>high_risk_patients = [JStr ''P1''], fever_patients = [JStr ''P1''],
      data_quality_issues = [JStr ''P2'']\<rparr>"
  have r2: "calculateRisk (\<lambda>s. NaN) (Some ?P2) =
      Inr \<lparr>total = 1, bpScore = 0, tempScore = 0, ageScore = 1, dataIssue = True\<rparr>"
    by (simp add: calculateRisk_def parseBP_def parseTemp_def parseAge_def isNaN_def
        js_le_def js_lt_def)
  have nofever: "\<not> js_ge (Fin 98) (Fin double_99_6)"
    by (simp add: js_ge_def double_99_6_def)
  have step: "classify_patient (\<lambda>s. NaN) (Some ?P2) ?mid = Inr ?al"
    using r2 nofever by (simp add: classify_patient_def)
  note inst = buildAlertLists_membership
    [of "\<lambda>s. NaN" ?P2 ?mid ?al "[Some ?P1, None, Some ?P2]" ?al]
  from inst have first: "buildAlertLists (\<lambda>s. NaN) [Some ?P1] = Inr ?mid"
    by blast
  then have c1: "classify_patient (\<lambda>s. NaN) (Some ?P1)
      \<lparr>high_risk_patients = [], fever_patients = [], data_quality_issues = []\<rparr> = Inr ?mid"
    by (simp add: buildAlertLists_def split: sum.splits)
  have run: "buildAlertLists (\<lambda>s. NaN) [Some ?P1, None, Some ?P2] = Inr ?al"
    by (simp add: buildAlertLists_def classify_patient_None c1 step)
  from inst run have "\<forall>x. x \<in> set (high_risk_patients ?al) \<longleftrightarrow>
           (\<exists>q r. Some q \<in> set [Some ?P1, None, Some ?P2] \<and> patient_id q = x \<and>
                  calculateRisk (\<lambda>s. NaN) (Some q) = Inr r \<and> 4 \<le> total r)"
    by blast
  with step run show ?thesis by simp
qed

text \<open>
  C9. The classifier passes once over the patients: each of the three lists is the list of
  the identifiers of the patients that pass its test, in the order of the input, so a
  patient that occurs twice is listed twice; the lists of a sequence followed by another
  are the lists of the first followed by those of the second; \<^verbatim>\<open>null\<close> and absent entries
  are skipped; and the three tests are evaluated on their own: in the run below the
  patients A to H are in none of the lists (A), in one (B, C, D), in two (E, F, G) and in
  all three (H), and B, which is there twice, is listed twice.
\<close>

theorem buildAlertLists_single_pass:
  "(buildAlertLists s2n ps = Inr al \<longrightarrow>
      high_risk_patients al =
        map patient_id
          (filter (\<lambda>p. \<exists>r. calculateRisk s2n (Some p) = Inr r \<and> 4 \<le> total r)
             (List.map_filter id ps)) \<and>
      fever_patients al =
        map patient_id
          (filter (\<lambda>p. ToBoolean (temperature p) \<and>
                        js_ge (ToNumber s2n (temperature p)) (Fin double_99_6))
             (List.map_filter id ps)) \<and>
      data_quality_issues al =
        map patient_id
          (filter (\<lambda>p. \<exists>r. calculateRisk s2n (Some p) = Inr r \<and> dataIssue r)
             (List.map_filter id ps))) \<and>
   (buildAlertLists s2n xs = Inr a \<and> buildAlertLists s2n ys = Inr b \<longrightarrow>
      buildAlertLists s2n (xs @ ys) =
        Inr \<lparr>high_risk_patients = high_risk_patients a @ high_risk_patients b,
             fever_patients = fever_patients a @ fever_patients b,
             data_quality_issues = data_quality_issues a @ data_quality_issues b\<rparr>) \<and>
   buildAlertLists s2n ps = buildAlertLists s2n (map Some (List.map_filter id ps)) \<and>
   buildAlertLists s2n
     [Some \<lparr>patient_id = JStr ''A'', blood_pressure = JStr ''118/76'',
            temperature = JNum (Fin 99.5625), age = JNum (Fin 30)\<rparr>,
      Some \<lparr>patient_id = JStr ''B'', blood_pressure = JStr ''145/95'',
            temperature = JNum (Fin 99.5625), age = JNum (Fin 30)\<rparr>,
      None,
      Some \<lparr>patient_id = JStr ''C'', blood_pressure = JStr ''118/76'',
            temperature = JNum (Fin 100), age = JNum (Fin 30)\<rparr>,
      Some \<lparr>patient_id = JStr ''D'', blood_pressure = JNull,
            temperature = JNum (Fin 98), age = JNum (Fin 30)\<rparr>,
      Some \<lparr>patient_id = JStr ''E'', blood_pressure = JStr ''145/95'',
            temperature = JNum (Fin double_101_2), age = JNum (Fin 70)\<rparr>,
      Some \<lparr>patient_id = JStr ''F'', blood_pressure = JStr ''145/95'',
            temperature = JNum (Fin 98), age = JNum (Fin 30)\<rparr>,
      Some \<lparr>patient_id = JStr ''G'', blood_pressure = JNull,
            temperature = JNum (Fin 100), age = JNum (Fin 30)\<rparr>,
      Some \<lparr>patient_id = JStr ''H'', blood_pressure = JStr ''145/95'',
            temperature = JNum (Fin 102), age = JUndefined\<rparr>,
      Some \<lparr>patient_id = JStr ''B'', blood_pressure = JStr ''145/95'',
            temperature = JNum (Fin 99.5625), age = JNum (Fin 30)\<rparr>] =
     Inr \<lparr>high_risk_patients = [JStr ''B'', JStr ''E'', JStr ''F'', JStr ''H'', JStr ''B''],
          fever_patients = [JStr ''C'', JStr ''E'', JStr ''G'', JStr ''H''],
          data_quality_issues = [JStr ''D'', JStr ''F'', JStr ''G'', JStr ''H'']\<rparr>"
proof -
  have filt: "high_risk_patients al =
        map patient_id
          (filter (\<lambda>p. \<exists>r. calculateRisk s2n (Some p) = Inr r \<and> 4 \<le> total r)
             (List.map_filter id ps)) \<and>
      fever_patients al =
        map patient_id
          (filter (\<lambda>p. ToBoolean (temperature p) \<and>
                        js_ge (ToNumber s2n (temperature p)) (Fin double_99_6))
             (List.map_filter id ps)) \<and>
      data_quality_issues al =
        map patient_id
          (filter (\<lambda>p. \<exists>r. calculateRisk s2n (Some p) = Inr r \<and> dataIssue r)
             (List.map_filter id ps))"
    if "buildAlertLists s2n ps = Inr al"
    using forEach_classify [of s2n ps _ al] that by (simp add: buildAlertLists_def)
  have app: "buildAlertLists s2n (xs @ ys) =
        Inr \<lparr>high_risk_patients = high_risk_patients a @ high_risk_patients b,
             fever_patients = fever_patients a @ fever_patients b,
             data_quality_issues = data_quality_issues a @ data_quality_issues b\<rparr>"
    if "buildAlertLists s2n xs = Inr a" "buildAlertLists s2n ys = Inr b"
    using that forEach_classify_from [of s2n ys b a]
    by (simp add: buildAlertLists_def forEach_append)
  have skip: "buildAlertLists s2n ps = buildAlertLists s2n (map Some (List.map_filter id ps))"
    unfolding buildAlertLists_def by (rule forEach_skip_absent)
  have bp: "parseBP (JStr ''118/76'') = Inr 1" "parseBP (JStr ''145/95'') = Inr 4"
    "parseBP JNull = Inr 0"
    by code_simp+
  have tmp: "parseTemp s2n (JNum (Fin 99.5625)) = 1" "parseTemp s2n (JNum (Fin 100)) = 1"
    "parseTemp s2n (JNum (Fin 98)) = 0" "parseTemp s2n (JNum (Fin double_101_2)) = 2"
    "parseTemp s2n (JNum (Fin 102)) = 2"
    by (simp_all add: parseTemp_def isNaN_def js_le_def double_100_9_def double_101_2_def)
  have ag: "parseAge s2n (JNum (Fin 30)) = 1" "parseAge s2n (JNum (Fin 70)) = 2"
    "parseAge s2n JUndefined = 0"
    by (simp_all add: parseAge_def isNaN_def js_le_def js_lt_def)
  have fev: "\<not> js_ge (Fin 99.5625) (Fin double_99_6)" "js_ge (Fin 100) (Fin double_99_6)"
    "\<not> js_ge (Fin 98) (Fin double_99_6)" "js_ge (Fin double_101_2) (Fin double_99_6)"
    "js_ge (Fin 102) (Fin double_99_6)" "double_101_2 \<noteq> 0"
    by (simp_all add: js_ge_def double_99_6_def double_101_2_def)
  have ex: "buildAlertLists s2n
     [Some \<lparr>patient_id = JStr ''A'', blood_pressure = JStr ''118/76'',
            temperature = JNum (Fin 99.5625), age = JNum (Fin 30)\<rparr>,
      Some \<lparr>patient_id = JStr ''B'', blood_pressure = JStr ''145/95'',
            temperature = JNum (Fin 99.5625), age = JNum (Fin 30)\<rparr>,
      None,
      Some \<lparr>patient_id = JStr ''C'', blood_pressure = JStr ''118/76'',
            temperature = JNum (Fin 100), age = JNum (Fin 30)\<rparr>,
      Some \<lparr>patient_id = JStr ''D'', blood_pressure = JNull,
            temperature = JNum (Fin 98), age = JNum (Fin 30)\<rparr>,
      Some \<lparr>patient_id = JStr ''E'', blood_pressure = JStr ''145/95'',
            temperature = JNum (Fin double_101_2), age = JNum (Fin 70)\<rparr>,
      Some \<lparr>patient_id = JStr ''F'', blood_pressure = JStr ''145/95'',
            temperature = JNum (Fin 98), age = JNum (Fin 30)\<rparr>,
      Some \<lparr>patient_id = JStr ''G'', blood_pressure = JNull,
            temperature = JNum (Fin 100), age = JNum (Fin 30)\<rparr>,
      Some \<lparr>patient_id = JStr ''H'', blood_pressure = JStr ''145/95'',
            temperature = JNum (Fin 102), age = JUndefined\<rparr>,
      Some \<lparr>patient_id = JStr ''B'', blood_pressure = JStr ''145/95'',
            temperature = JNum (Fin 99.5625), age = JNum (Fin 30)\<rparr>] =
     Inr \<lparr>high_risk_patients = [JStr ''B'', JStr ''E'', JStr ''F'', JStr ''H'', JStr ''B''],
          fever_patients = [JStr ''C'', JStr ''E'', JStr ''G'', JStr ''H''],
          data_quality_issues = [JStr ''D'', JStr ''F'', JStr ''G'', JStr ''H'']\<rparr>"
    by (simp add: buildAlertLists_def classify_patient_def calculateRisk_def Let_def bp
        tmp [simplified] ag fev [simplified])
  from filt app skip ex show ?thesis by blast
qed

theorem buildAlertLists_single_pass_witness:
  "buildAlertLists (\<lambda>s. NaN)
     [Some \<lparr>patient_id = JStr ''Q'', blood_pressure = JNull,
            temperature = JNum (Fin 98), age = JNum (Fin 30)\<rparr>,
      None,
      Some \<lparr>patient_id = JStr ''Q'', blood_pressure = JNull,
            temperature = JNum (Fin 98), age = JNum (Fin 30)\<rparr>] =
     Inr \<lparr>high_risk_patients = [], fever_patients = [],
          data_quality_issues = [JStr ''Q'', JStr ''Q'']\<rparr>"
proof -
  let ?Q = "\<lparr>patient_id = JStr ''Q'', blood_pressure = JNull,
            temperature = JNum (Fin 98), age = JNum (Fin 30)\<rparr>"
  let ?one = "\<lparr>high_risk_patients = [], fever_patients = [],
      data_quality_issues = [JStr ''Q'']\<rparr>"
  let ?two = "\<lparr>high_risk_patients = [], fever_patients = [],
      data_quality_issues = [JStr ''Q'', JStr ''Q'']\<rparr>"
  have r: "calculateRisk (\<lambda>s. NaN) (Some ?Q) =
      Inr \<lparr>total = 1, bpScore = 0, tempScore = 0, ageScore = 1, dataIssue = True\<rparr>"
    by (simp add: calculateRisk_def parseBP_def parseTemp_def parseAge_def isNaN_def
        js_le_def js_lt_def)
  have nofever: "\<not> js_ge (Fin 98) (Fin double_99_6)"
    by (simp add: js_ge_def double_99_6_def)
  have a: "buildAlertLists (\<lambda>s. NaN) [Some ?Q] = Inr ?one"
    using r nofever by (simp add: buildAlertLists_def classify_patient_def)
  have b: "buildAlertLists (\<lambda>s. NaN) [None, Some ?Q] = Inr ?one"
    using r nofever by (simp add: buildAlertLists_def classify_patient_def)
  note inst = buildAlertLists_single_pass
    [of "\<lambda>s. NaN" "[Some ?Q]" ?one "[Some ?Q]" ?one "[None, Some ?Q]" ?one]
  from inst a have "data_quality_issues ?one =
        map patient_id
          (filter (\<lambda>p. \<exists>r. calculateRisk (\<lambda>s. NaN) (Some p) = Inr r \<and> dataIssue r)
             (List.map_filter id [Some ?Q]))"
    by blast
  moreover from inst a b have "buildAlertLists (\<lambda>s. NaN) ([Some ?Q] @ [None, Some ?Q]) =
        Inr \<lparr>high_risk_patients = high_risk_patients ?one @ high_risk_patients ?one,
             fever_patients = fever_patients ?one @ fever_patients ?one,
             data_quality_issues = data_quality_issues ?one @ data_quality_issues ?one\<rparr>"
    by blast
  ultimately show ?thesis by simp
qed

section \<open>Properties of the fetcher\<close>

subsection \<open>The retry loop\<close>

lemma ok_not_retry_status:
  "ok res \<Longrightarrow> status res \<noteq> 429 \<and> status res \<notin> set [500, 502, 503]"
  by (auto simp: ok_def)

lemma attempt_failed:
  assumes "failed_attempt outcome"
    and "st' = st\<lparr>patients := patients st @ appended_by outcome,
                 attempts := attempts st + 1,
                 effects := effects st @ [Request (page st), Sleep (3000 * (attempts st + 1))]\<rparr>"
  shows "attempt st outcome \<in> {Normal st', Continue st'}"
proof (cases outcome)
  case Rejected
  with assms show ?thesis
    by (simp add: attempt_def try_block_def catch_block_def sleep_def appended_by_def)
next
  case (Resolved res)
  show ?thesis
  proof (cases "ok res")
    case False
    with Resolved assms show ?thesis
      by (simp add: attempt_def try_block_def catch_block_def sleep_def appended_by_def Let_def)
  next
    case True
    with ok_not_retry_status [OF True] Resolved assms show ?thesis
      by (cases "body res")
         (simp_all add: attempt_def try_block_def catch_block_def sleep_def appended_by_def
            failed_attempt_def Let_def)
  qed
qed

lemma retry_events_0: "retry_events pg a 0 = []"
  by (simp add: retry_events_def)

lemma retry_events_Suc:
  "retry_events pg a (Suc k) = Request pg # Sleep (3000 * (a + 1)) # retry_events pg (a + 1) k"
  by (simp add: retry_events_def upt_conv_Cons)

lemma after_failures_Nil: "after_failures st [] = st"
  by (simp add: after_failures_def retry_events_0)

lemma after_failures_Cons:
  "after_failures st (f # fs) =
     after_failures
       (st\<lparr>patients := patients st @ appended_by f,
           attempts := attempts st + 1,
           effects := effects st @ [Request (page st), Sleep (3000 * (attempts st + 1))]\<rparr>) fs"
  by (simp add: after_failures_def retry_events_Suc)

lemma retry_loop_exit:
  "success st \<or> 10 \<le> attempts st \<Longrightarrow> retry_loop st rest = Some (Normal st, rest)"
  by (cases rest) auto

lemma retry_loop_failures:
  assumes "\<forall>f\<in>set fails. failed_attempt f" and "\<not> success st"
    and "attempts st + length fails \<le> 10"
  shows "retry_loop st (fails @ rest) = retry_loop (after_failures st fails) rest"
  using assms
proof (induction fails arbitrary: st)
  case Nil
  then show ?case by (simp add: after_failures_Nil)
next
  case (Cons f fs)
  let ?st' = "st\<lparr>patients := patients st @ appended_by f,
           attempts := attempts st + 1,
           effects := effects st @ [Request (page st), Sleep (3000 * (attempts st + 1))]\<rparr>"
  from Cons.prems have f: "failed_attempt f" and guard: "\<not> success st \<and> attempts st < 10"
    by auto
  from attempt_failed [OF f, of ?st' st]
  have "attempt st f = Normal ?st' \<or> attempt st f = Continue ?st'" by simp
  with guard have "retry_loop st ((f # fs) @ rest) = retry_loop ?st' (fs @ rest)"
    by auto
  also have "\<dots> = retry_loop (after_failures ?st' fs) rest"
    using Cons.prems by (intro Cons.IH) auto
  finally show ?case by (simp only: after_failures_Cons)
qed

lemma retry_loop_success:
  assumes "\<not> success st" and "attempts st < 10" and "ok res" and "body res = JsonPage d n"
  shows "retry_loop st (Resolved res # rest) =
     Some (Normal (st\<lparr>patients := patients st @ d, totalPages := n, success := True,
                      effects := effects st @ [Request (page st)]\<rparr>), rest)"
proof -
  have "attempt st (Resolved res) =
      Normal (st\<lparr>patients := patients st @ d, totalPages := n, success := True,
                 effects := effects st @ [Request (page st)]\<rparr>)"
    using assms(3,4) ok_not_retry_status [OF assms(3)]
    by (simp add: attempt_def try_block_def Let_def)
  with assms(1,2) show ?thesis
    by (simp add: retry_loop_exit)
qed

lemma retryable_failed: "retryable f \<Longrightarrow> failed_attempt f \<and> appended_by f = []"
  by (cases f) (auto simp: retryable_def failed_attempt_def appended_by_def ok_def)

lemma after_retryable:
  assumes "\<forall>f\<in>set fails. retryable f"
  shows "after_failures st fails =
     st\<lparr>attempts := attempts st + length fails,
        effects := effects st @ retry_events (page st) (attempts st) (length fails)\<rparr>"
proof -
  from assms have "concat (map appended_by fails) = []"
    by (induction fails) (simp_all add: retryable_failed)
  then show ?thesis by (simp add: after_failures_def)
qed

lemma attempt_not_Throw: "attempt st outcome \<noteq> Throw err st'"
  by (cases "try_block st outcome") (simp_all add: attempt_def catch_block_def Let_def)

lemma retry_loop_not_Throw: "retry_loop st outcomes \<noteq> Some (Throw err st', rest)"
proof (induction outcomes arbitrary: st)
  case Nil
  then show ?case by simp
next
  case (Cons outcome outcomes)
  then show ?case
    using attempt_not_Throw [of st outcome]
    by (cases "attempt st outcome") auto
qed

lemma fetch_loop_not_Throw: "fetch_loop st outcomes \<noteq> Some (Throw err st')"
proof (induction st outcomes rule: fetch_loop.induct)
  case (1 st outcomes)
  show ?case
  proof (cases "js_le (Fin (real (page st))) (totalPages st)")
    case False
    then show ?thesis by (simp add: fetch_loop.simps [of st outcomes])
  next
    case True
    show ?thesis
    proof (cases "retry_loop (st\<lparr>attempts := 0, success := False\<rparr>) outcomes")
      case None
      with True show ?thesis by (simp add: fetch_loop.simps [of st outcomes])
    next
      case (Some res)
      obtain c rest where res: "res = (c, rest)" by (cases res)
      show ?thesis
      proof (cases c)
        case (Normal s)
        with True Some res "1.IH"(1) [OF True Some res [symmetric] Normal]
        show ?thesis by (simp add: fetch_loop.simps [of st outcomes])
      next
        case (Continue s)
        with True Some res "1.IH"(2) [OF True Some res [symmetric] Continue]
        show ?thesis by (simp add: fetch_loop.simps [of st outcomes])
      next
        case (Throw e s)
        with Some res retry_loop_not_Throw show ?thesis by blast
      qed
    qed
  qed
qed

lemma fetchPatients_not_Inl: "fetchPatients outcomes \<noteq> Some (Inl err, evs)"
proof -
  let ?init = "\<lparr>patients = [], page = 1, totalPages = Fin 1, attempts = 0,
                        success = False, effects = []\<rparr>"
  show ?thesis
  proof (cases "fetch_loop ?init outcomes")
    case None
    then show ?thesis by (simp add: fetchPatients_def)
  next
    case (Some c)
    with fetch_loop_not_Throw [of ?init outcomes] show ?thesis
      by (cases c) (simp_all add: fetchPatients_def)
  qed
qed

lemma fetch_loop_exhausted:
  assumes "\<forall>f\<in>set fails. failed_attempt f" and "length fails = 10"
  shows "retry_loop (st\<lparr>attempts := 0, success := False\<rparr>) (fails @ rest) =
      Some (Normal (st\<lparr>patients := patients st @ concat (map appended_by fails),
                       attempts := 10, success := False,
                       effects := effects st @ retry_events (page st) 0 10\<rparr>), rest)"
    and "js_le (Fin (real (page st))) (totalPages st) \<Longrightarrow>
      fetch_loop st (fails @ rest) =
        fetch_loop (st\<lparr>patients := patients st @ concat (map appended_by fails),
                       page := page st + 1, attempts := 10, success := False,
                       effects := effects st @ retry_events (page st) 0 10 @ [Sleep 3000]\<rparr>)
          rest"
proof -
  let ?st0 = "st\<lparr>attempts := 0, success := False\<rparr>"
  have "retry_loop ?st0 (fails @ rest) = retry_loop (after_failures ?st0 fails) rest"
    using assms by (intro retry_loop_failures) simp_all
  also have "\<dots> = Some (Normal (after_failures ?st0 fails), rest)"
    using assms(2) by (intro retry_loop_exit) (simp add: after_failures_def)
  finally show loop: "retry_loop ?st0 (fails @ rest) =
      Some (Normal (st\<lparr>patients := patients st @ concat (map appended_by fails),
                       attempts := 10, success := False,
                       effects := effects st @ retry_events (page st) 0 10\<rparr>), rest)"
    using assms(2) by (simp add: after_failures_def)
  show "fetch_loop st (fails @ rest) =
        fetch_loop (st\<lparr>patients := patients st @ concat (map appended_by fails),
                       page := page st + 1, attempts := 10, success := False,
                       effects := effects st @ retry_events (page st) 0 10 @ [Sleep 3000]\<rparr>)
          rest"
    if "js_le (Fin (real (page st))) (totalPages st)"
    using that loop
    by (cases st) (simp add: fetch_loop.simps [of _ "fails @ rest"] sleep_def)
qed

lemma fetch_loop_page:
  assumes "js_le (Fin (real (page st))) (totalPages st)" and "ok res" and "body res = JsonPage d n"
  shows "fetch_loop st (Resolved res # rest) =
     fetch_loop (st\<lparr>patients := patients st @ d, page := page st + 1, totalPages := n,
                    attempts := 0, success := True,
                    effects := effects st @ [Request (page st), Sleep 3000]\<rparr>) rest"
proof -
  have "retry_loop (st\<lparr>attempts := 0, success := False\<rparr>) (Resolved res # rest) =
     Some (Normal (st\<lparr>patients := patients st @ d, totalPages := n, attempts := 0,
                      success := True, effects := effects st @ [Request (page st)]\<rparr>), rest)"
    using retry_loop_success [of "st\<lparr>attempts := 0, success := False\<rparr>" res d n rest] assms
    by simp
  with assms(1) show ?thesis
    by (cases st) (simp add: fetch_loop.simps [of _ "Resolved res # rest"] sleep_def)
qed

lemma fetch_loop_done:
  "\<not> js_le (Fin (real (page st))) (totalPages st) \<Longrightarrow> fetch_loop st outcomes = Some (Normal st)"
  by (simp add: fetch_loop.simps [of st outcomes])

text \<open>
  C6. A response with status 429, 500, 502 or 503, a rejected request and a body that does
  not parse make the attempt count and the loop wait 3000 ms times the number of the
  attempt, with the page, the patients and \<^verbatim>\<open>totalPages\<close> as they were; the loop then asks
  for the same page again, up to 10 attempts: after ten such failures it ends without an
  eleventh request. Three responses 429 and then a page make four requests of page 1, with
  sleeps of 3000, 6000 and 9000 ms before the fourth (the last sleep, of 3000 ms, is the
  pause after the page).
\<close>

theorem retry_policy:
  "(retryable outcome \<longrightarrow>
      attempt st outcome \<in>
        {Normal (st\<lparr>attempts := attempts st + 1,
                    effects := effects st @
                      [Request (page st), Sleep (3000 * (attempts st + 1))]\<rparr>),
         Continue (st\<lparr>attempts := attempts st + 1,
                      effects := effects st @
                        [Request (page st), Sleep (3000 * (attempts st + 1))]\<rparr>)}) \<and>
   ((\<forall>f\<in>set fails. retryable f) \<and> length fails \<le> 10 \<and> attempts st = 0 \<and> \<not> success st \<longrightarrow>
      retry_loop st (fails @ rest) =
        retry_loop (st\<lparr>attempts := length fails,
                       effects := effects st @ retry_events (page st) 0 (length fails)\<rparr>) rest) \<and>
   ((\<forall>f\<in>set fails. retryable f) \<and> length fails = 10 \<and> attempts st = 0 \<and> \<not> success st \<longrightarrow>
      retry_loop st (fails @ rest) =
        Some (Normal (st\<lparr>attempts := 10,
                         effects := effects st @ retry_events (page st) 0 10\<rparr>), rest)) \<and>
   retry_events pg 0 3 =
     [Request pg, Sleep 3000, Request pg, Sleep 6000, Request pg, Sleep 9000] \<and>
   fetchPatients
     [Resolved \<lparr>status = 429, body = b1\<rparr>, Resolved \<lparr>status = 429, body = b2\<rparr>,
      Resolved \<lparr>status = 429, body = b3\<rparr>, Resolved \<lparr>status = 200, body = JsonPage d (Fin 1)\<rparr>] =
     Some (Inr d, [Request 1, Sleep 3000, Request 1, Sleep 6000, Request 1, Sleep 9000,
                   Request 1, Sleep 3000])"
proof -
  have one: "attempt st outcome \<in>
        {Normal (st\<lparr>attempts := attempts st + 1,
                    effects := effects st @
                      [Request (page st), Sleep (3000 * (attempts st + 1))]\<rparr>),
         Continue (st\<lparr>attempts := attempts st + 1,
                      effects := effects st @
                        [Request (page st), Sleep (3000 * (attempts st + 1))]\<rparr>)}"
    if "retryable outcome"
    using retryable_failed [OF that] by (intro attempt_failed) simp_all
  have many: "retry_loop st (fails @ rest) =
        retry_loop (st\<lparr>attempts := length fails,
                       effects := effects st @ retry_events (page st) 0 (length fails)\<rparr>) rest"
    if "\<forall>f\<in>set fails. retryable f" "length fails \<le> 10" "attempts st = 0" "\<not> success st"
  proof -
    from that have "retry_loop st (fails @ rest) = retry_loop (after_failures st fails) rest"
      by (intro retry_loop_failures) (simp_all add: retryable_failed)
    with that show ?thesis by (simp add: after_retryable)
  qed
  have ten: "retry_loop st (fails @ rest) =
        Some (Normal (st\<lparr>attempts := 10,
                         effects := effects st @ retry_events (page st) 0 10\<rparr>), rest)"
    if "\<forall>f\<in>set fails. retryable f" "length fails = 10" "attempts st = 0" "\<not> success st"
    using many that by (simp add: retry_loop_exit)
  have three: "retry_events pg 0 3 =
     [Request pg, Sleep 3000, Request pg, Sleep 6000, Request pg, Sleep 9000]"
    by (simp add: retry_events_def upt_conv_Cons)
  have ex: "fetchPatients
     [Resolved \<lparr>status = 429, body = b1\<rparr>, Resolved \<lparr>status = 429, body = b2\<rparr>,
      Resolved \<lparr>status = 429, body = b3\<rparr>, Resolved \<lparr>status = 200, body = JsonPage d (Fin 1)\<rparr>] =
     Some (Inr d, [Request 1, Sleep 3000, Request 1, Sleep 6000, Request 1, Sleep 9000,
                   Request 1, Sleep 3000])"
    by (simp add: fetchPatients_def fetch_loop.simps js_le_def attempt_def try_block_def
        sleep_def ok_def Let_def)
  from one many ten three ex show ?thesis by blast
qed

theorem retry_policy_witness:
  "attempt \<lparr>patients = [], page = 1, totalPages = Fin 1, attempts = 0, success = False,
            effects = []\<rparr> (Resolved \<lparr>status = 503, body = NotJson\<rparr>) \<in>
     {Normal \<lparr>patients = [], page = 1, totalPages = Fin 1, attempts = 1, success = False,
              effects = [Request 1, Sleep 3000]\<rparr>,
      Continue \<lparr>patients = [], page = 1, totalPages = Fin 1, attempts = 1, success = False,
                effects = [Request 1, Sleep 3000]\<rparr>} \<and>
   retry_loop \<lparr>patients = [], page = 1, totalPages = Fin 1, attempts = 0, success = False,
               effects = []\<rparr> (replicate 10 Rejected @ [Rejected]) =
     Some (Normal \<lparr>patients = [], page = 1, totalPages = Fin 1, attempts = 10, success = False,
                   effects = retry_events 1 0 10\<rparr>, [Rejected])"
proof -
  let ?S = "\<lparr>patients = [], page = 1, totalPages = Fin 1, attempts = 0, success = False,
            effects = []\<rparr>"
  have r1: "retryable (Resolved \<lparr>status = 503, body = NotJson\<rparr>)"
    by (simp add: retryable_def)
  have r2: "\<forall>f\<in>set (replicate 10 Rejected). retryable f"
    by (simp add: retryable_def)
  note inst = retry_policy [of "Resolved \<lparr>status = 503, body = NotJson\<rparr>" ?S
      "replicate 10 Rejected" "[Rejected]"]
  from inst r1 have a: "attempt ?S (Resolved \<lparr>status = 503, body = NotJson\<rparr>) \<in>
        {Normal (?S\<lparr>attempts := attempts ?S + 1,
                    effects := effects ?S @
                      [Request (page ?S), Sleep (3000 * (attempts ?S + 1))]\<rparr>),
         Continue (?S\<lparr>attempts := attempts ?S + 1,
                      effects := effects ?S @
                        [Request (page ?S), Sleep (3000 * (attempts ?S + 1))]\<rparr>)}"
    by blast
  from inst r2 have b: "retry_loop ?S (replicate 10 Rejected @ [Rejected]) =
        Some (Normal (?S\<lparr>attempts := 10,
                         effects := effects ?S @ retry_events (page ?S) 0 10\<rparr>), [Rejected])"
    by simp
  from inst r2 have c: "retry_loop ?S (replicate 10 Rejected @ [Rejected]) =
        retry_loop (?S\<lparr>attempts := length (replicate 10 Rejected :: fetch_outcome list),
                       effects := effects ?S @
                         retry_events (page ?S) 0
                           (length (replicate 10 Rejected :: fetch_outcome list))\<rparr>) [Rejected]"
    by simp
  from a b c show ?thesis by simp
qed

text \<open>
  C5. After ten failed attempts in a row on a page the retry loop ends with no error, the
  patients fetched so far are kept (a body without \<^verbatim>\<open>pagination\<close> adds its data to them),
  and the fetch goes on with the next page after the pause of 3000 ms; the loop of
  \<^verbatim>\<open>fetchPatients\<close> never ends with an error. When page 2 of 3 fails ten times, the result
  holds the patients of the pages 1 and 3.
\<close>

theorem retries_exhausted_moves_on:
  "((\<forall>f\<in>set fails. failed_attempt f) \<and> length fails = 10 \<and>
    js_le (Fin (real (page st))) (totalPages st) \<longrightarrow>
      retry_loop (st\<lparr>attempts := 0, success := False\<rparr>) (fails @ rest) =
        Some (Normal (st\<lparr>patients := patients st @ concat (map appended_by fails),
                         attempts := 10, success := False,
                         effects := effects st @ retry_events (page st) 0 10\<rparr>), rest) \<and>
      fetch_loop st (fails @ rest) =
        fetch_loop (st\<lparr>patients := patients st @ concat (map appended_by fails),
                       page := page st + 1, attempts := 10, success := False,
                       effects := effects st @ retry_events (page st) 0 10 @ [Sleep 3000]\<rparr>)
          rest) \<and>
   fetch_loop st outcomes \<noteq> Some (Throw err st') \<and>
   fetchPatients
     ([Resolved \<lparr>status = 200, body = JsonPage d1 (Fin 3)\<rparr>] @
      replicate 10 (Resolved \<lparr>status = 500, body = b\<rparr>) @
      [Resolved \<lparr>status = 200, body = JsonPage d3 (Fin 3)\<rparr>]) =
     Some (Inr (d1 @ d3),
           [Request 1, Sleep 3000] @ retry_events 2 0 10 @ [Sleep 3000, Request 3, Sleep 3000])"
proof -
  have general: "retry_loop (st\<lparr>attempts := 0, success := False\<rparr>) (fails @ rest) =
        Some (Normal (st\<lparr>patients := patients st @ concat (map appended_by fails),
                         attempts := 10, success := False,
                         effects := effects st @ retry_events (page st) 0 10\<rparr>), rest) \<and>
      fetch_loop st (fails @ rest) =
        fetch_loop (st\<lparr>patients := patients st @ concat (map appended_by fails),
                       page := page st + 1, attempts := 10, success := False,
                       effects := effects st @ retry_events (page st) 0 10 @ [Sleep 3000]\<rparr>)
          rest"
    if "\<forall>f\<in>set fails. failed_attempt f" "length fails = 10"
      "js_le (Fin (real (page st))) (totalPages st)"
    using fetch_loop_exhausted [OF that(1,2)] that(3) by simp
  let ?ok1 = "Resolved \<lparr>status = 200, body = JsonPage d1 (Fin 3)\<rparr>"
  let ?ok3 = "Resolved \<lparr>status = 200, body = JsonPage d3 (Fin 3)\<rparr>"
  let ?f = "Resolved \<lparr>status = 500, body = b\<rparr>"
  let ?S0 = "\<lparr>patients = [], page = 1, totalPages = Fin 1, attempts = 0,
                        success = False, effects = []\<rparr>"
  let ?S1 = "\<lparr>patients = d1, page = Suc (Suc 0), totalPages = Fin 3, attempts = 0,
                        success = True, effects = [Request 1, Sleep 3000]\<rparr>"
  let ?S2 = "\<lparr>patients = d1, page = Suc (Suc (Suc 0)), totalPages = Fin 3, attempts = 10,
                        success = False,
                        effects = [Request 1, Sleep 3000] @ retry_events 2 0 10 @ [Sleep 3000]\<rparr>"
  let ?S3 = "\<lparr>patients = d1 @ d3, page = Suc (Suc (Suc (Suc 0))), totalPages = Fin 3, attempts = 0,
                        success = True,
                        effects = [Request 1, Sleep 3000] @ retry_events 2 0 10 @
                          [Sleep 3000, Request 3, Sleep 3000]\<rparr>"
  have fails: "\<forall>f\<in>set (replicate 10 ?f). failed_attempt f" "length (replicate 10 ?f) = 10"
    "concat (map appended_by (replicate 10 ?f)) = []"
    by (simp_all add: failed_attempt_def appended_by_def ok_def)
  have "fetch_loop ?S0 (?ok1 # replicate 10 ?f @ [?ok3]) =
        fetch_loop ?S1 (replicate 10 ?f @ [?ok3])"
    using fetch_loop_page [of ?S0 "\<lparr>status = 200, body = JsonPage d1 (Fin 3)\<rparr>" d1 "Fin 3"]
    by (simp add: js_le_def ok_def)
  also have "\<dots> = fetch_loop ?S2 [?ok3]"
    using fetch_loop_exhausted(2) [OF fails(1,2), of ?S1 "[?ok3]"] fails(3)
    by (simp add: js_le_def numeral_2_eq_2)
  also have "\<dots> = fetch_loop ?S3 []"
    using fetch_loop_page [of ?S2 "\<lparr>status = 200, body = JsonPage d3 (Fin 3)\<rparr>" d3 "Fin 3" "[]"]
    by (simp add: js_le_def ok_def numeral_2_eq_2 numeral_3_eq_3)
  also have "\<dots> = Some (Normal ?S3)"
    by (rule fetch_loop_done) (simp add: js_le_def)
  finally have ex: "fetchPatients ([?ok1] @ replicate 10 ?f @ [?ok3]) =
     Some (Inr (d1 @ d3),
           [Request 1, Sleep 3000] @ retry_events 2 0 10 @ [Sleep 3000, Request 3, Sleep 3000])"
    by (simp add: fetchPatients_def numeral_2_eq_2 numeral_3_eq_3)
  from general fetch_loop_not_Throw [of st outcomes err st'] ex show ?thesis by blast
qed

theorem retries_exhausted_moves_on_witness:
  "fetch_loop \<lparr>patients = [], page = 1, totalPages = Fin 1, attempts = 0,
               success = False, effects = []\<rparr> (replicate 10 Rejected @ []) =
     Some (Normal \<lparr>patients = [], page = 2, totalPages = Fin 1, attempts = 10,
                   success = False, effects = retry_events 1 0 10 @ [Sleep 3000]\<rparr>)"
proof -
  let ?S = "\<lparr>patients = [], page = 1, totalPages = Fin 1, attempts = 0,
               success = False, effects = []\<rparr>"
  let ?S' = "\<lparr>patients = [], page = 2, totalPages = Fin 1, attempts = 10,
                   success = False, effects = retry_events 1 0 10 @ [Sleep 3000]\<rparr>"
  have h: "(\<forall>f\<in>set (replicate 10 Rejected). failed_attempt f) \<and>
      length (replicate 10 Rejected) = 10 \<and> js_le (Fin (real (page ?S))) (totalPages ?S)"
    by (simp add: failed_attempt_def js_le_def)
  from retries_exhausted_moves_on [of "replicate 10 Rejected" ?S "[]"] h
  have "fetch_loop ?S (replicate 10 Rejected @ []) =
        fetch_loop (?S\<lparr>patients := patients ?S @ concat (map appended_by (replicate 10 Rejected)),
                       page := page ?S + 1, attempts := 10, success := False,
                       effects := effects ?S @ retry_events (page ?S) 0 10 @ [Sleep 3000]\<rparr>) []"
    by blast
  also have "\<dots> = fetch_loop ?S' []"
    by (simp add: appended_by_def numeral_2_eq_2)
  also have "\<dots> = Some (Normal ?S')"
    by (rule fetch_loop_done) (simp add: js_le_def)
  finally show ?thesis .
qed

subsection \<open>A status outside the two retry lists\<close>

text \<open>
  What the retry loop does with a status that is not 429, 500, 502 or 503 and not in the
  range of \<^verbatim>\<open>res.ok\<close>: line 52 throws, the \<^verbatim>\<open>catch\<close> of line 63 takes the error, and the turn
  ends as after a network error. No error leaves \<^verbatim>\<open>fetchPatients\<close>.
\<close>

lemma unexpected_status_caught:
  assumes "status res \<noteq> 429" and "status res \<notin> {500, 502, 503}"
    and "\<not> (200 \<le> status res \<and> status res \<le> 299)"
  shows "try_block st (Resolved res) =
        Throw (UnexpectedError (status res)) (st\<lparr>effects := effects st @ [Request (page st)]\<rparr>)"
    and "attempt st (Resolved res) =
        Normal (st\<lparr>attempts := attempts st + 1,
                   effects := effects st @
                     [Request (page st), Sleep (3000 * (attempts st + 1))]\<rparr>)"
    and "failed_attempt (Resolved res)"
  using assms
  by (simp_all add: attempt_def try_block_def catch_block_def sleep_def ok_def Let_def
      failed_attempt_def)

text \<open>
  C1. The claim: a status that is not 2xx, 429, 500, 502 or 503 makes the fetch raise an
  error at once, the error reaches the caller, and the fetch ends with no retry and no
  skip. The code names the statuses it retries (429; 500, 502, 503) and on any other
  status that is not 2xx throws \<^verbatim>\<open>Unexpected Error\<close> at line 52; but the \<^verbatim>\<open>throw\<close> is inside
  the \<^verbatim>\<open>try\<close> block, and the \<^verbatim>\<open>catch\<close> of line 63, which never reads \<^verbatim>\<open>err\<close>, takes it. On a
  404 followed by a page, \<^verbatim>\<open>fetchPatients\<close> asks for page 1 again after 3000 ms and returns
  the patients of the page; on ten 404 in a row it returns no patient and no error.
\<close>

theorem unexpected_status_swallowed:
  "try_block \<lparr>patients = [], page = 1, totalPages = Fin 1, attempts = 0,
              success = False, effects = []\<rparr> (Resolved \<lparr>status = 404, body = NotJson\<rparr>) =
     Throw (UnexpectedError 404)
       \<lparr>patients = [], page = 1, totalPages = Fin 1, attempts = 0,
        success = False, effects = [Request 1]\<rparr> \<and>
   fetchPatients
     [Resolved \<lparr>status = 404, body = NotJson\<rparr>,
      Resolved \<lparr>status = 200, body = JsonPage
         [Some \<lparr>patient_id = JStr ''P1'', blood_pressure = JStr ''118/76'',
                temperature = JNum (Fin 98), age = JNum (Fin 30)\<rparr>] (Fin 1)\<rparr>] =
     Some (Inr [Some \<lparr>patient_id = JStr ''P1'', blood_pressure = JStr ''118/76'',
                      temperature = JNum (Fin 98), age = JNum (Fin 30)\<rparr>],
           [Request 1, Sleep 3000, Request 1, Sleep 3000]) \<and>
   fetchPatients
     [Resolved \<lparr>status = 404, body = NotJson\<rparr>,
      Resolved \<lparr>status = 200, body = JsonPage
         [Some \<lparr>patient_id = JStr ''P1'', blood_pressure = JStr ''118/76'',
                temperature = JNum (Fin 98), age = JNum (Fin 30)\<rparr>] (Fin 1)\<rparr>] \<noteq>
     Some (Inl (UnexpectedError 404), [Request 1]) \<and>
   fetchPatients (replicate 10 (Resolved \<lparr>status = 404, body = NotJson\<rparr>)) =
     Some (Inr [], retry_events 1 0 10 @ [Sleep 3000])"
proof -
  let ?S = "\<lparr>patients = [], page = 1, totalPages = Fin 1, attempts = 0,
               success = False, effects = []\<rparr>"
  let ?S' = "\<lparr>patients = [], page = Suc (Suc 0), totalPages = Fin 1, attempts = 10,
               success = False, effects = retry_events 1 0 10 @ [Sleep 3000]\<rparr>"
  let ?f = "Resolved \<lparr>status = 404, body = NotJson\<rparr>"
  have one: "try_block ?S ?f =
     Throw (UnexpectedError 404)
       \<lparr>patients = [], page = 1, totalPages = Fin 1, attempts = 0,
        success = False, effects = [Request 1]\<rparr>"
    by (simp add: try_block_def ok_def Let_def)
  have two: "fetchPatients
     [?f,
      Resolved \<lparr>status = 200, body = JsonPage
         [Some \<lparr>patient_id = JStr ''P1'', blood_pressure = JStr ''118/76'',
                temperature = JNum (Fin 98), age = JNum (Fin 30)\<rparr>] (Fin 1)\<rparr>] =
     Some (Inr [Some \<lparr>patient_id = JStr ''P1'', blood_pressure = JStr ''118/76'',
                      temperature = JNum (Fin 98), age = JNum (Fin 30)\<rparr>],
           [Request 1, Sleep 3000, Request 1, Sleep 3000])"
    by (simp add: fetchPatients_def fetch_loop.simps js_le_def attempt_def try_block_def
        catch_block_def sleep_def ok_def Let_def)
  have fails: "\<forall>f\<in>set (replicate 10 ?f). failed_attempt f" "length (replicate 10 ?f) = 10"
    by (simp_all add: failed_attempt_def ok_def)
  have "fetch_loop ?S (replicate 10 ?f @ []) = fetch_loop ?S' []"
    using fetch_loop_exhausted(2) [OF fails, of ?S "[]"]
    by (simp add: js_le_def appended_by_def ok_def)
  also have "\<dots> = Some (Normal ?S')"
    by (rule fetch_loop_done) (simp add: js_le_def)
  finally have ten: "fetchPatients (replicate 10 ?f) =
     Some (Inr [], retry_events 1 0 10 @ [Sleep 3000])"
    by (simp add: fetchPatients_def)
  from one two ten show ?thesis by simp
qed

end
